theory Spec2Isabelle
  imports Main
begin

section \<open>JavaScript strings\<close>

text \<open>
  Strings are lists of characters. The characters of the model are the code units
  0..255, so \<open>trim\<close> removes exactly the ECMAScript white space and line terminators
  of that range: TAB, LF, VT, FF, CR, SPACE and NBSP. Message texts are given without
  their leading pictograph.
\<close>

definition is_whitespace :: "char \<Rightarrow> bool" where
  "is_whitespace c =
     (c \<in> set [CHR 0x09, CHR 0x0A, CHR 0x0B, CHR 0x0C, CHR 0x0D, CHR 0x20, CHR 0xA0])"

text \<open>\<^verbatim>\<open>String.prototype.trim\<close>\<close>

definition trim :: "string \<Rightarrow> string" where
  "trim s = rev (dropWhile is_whitespace (rev (dropWhile is_whitespace s)))"

text \<open>\<^verbatim>\<open>String.prototype.startsWith\<close>\<close>

fun startsWith :: "string \<Rightarrow> string \<Rightarrow> bool" where
  "startsWith s [] = True"
| "startsWith [] (p # ps) = False"
| "startsWith (c # cs) (p # ps) = (c = p \<and> startsWith cs ps)"

text \<open>\<^verbatim>\<open>String.prototype.includes\<close>\<close>

fun includes_str :: "string \<Rightarrow> string \<Rightarrow> bool" where
  "includes_str [] sub = (sub = [])"
| "includes_str (c # cs) sub = (startsWith (c # cs) sub \<or> includes_str cs sub)"

text \<open>\<^verbatim>\<open>Array.prototype.join\<close>\<close>

fun join :: "string \<Rightarrow> string list \<Rightarrow> string" where
  "join sep [] = []"
| "join sep [x] = x"
| "join sep (x # y # ys) = x @ sep @ join sep (y # ys)"

text \<open>\<^verbatim>\<open>Set.prototype.add\<close> and \<^verbatim>\<open>Set.prototype.delete\<close>, on a set kept in insertion order.\<close>

definition set_add :: "nat \<Rightarrow> nat list \<Rightarrow> nat list" where
  "set_add c cs = (if c \<in> set cs then cs else cs @ [c])"

definition set_delete :: "nat \<Rightarrow> nat list \<Rightarrow> nat list" where
  "set_delete c cs = removeAll c cs"

section \<open>Backend: the state of \<^verbatim>\<open>src/backend/index.js\<close>\<close>

text \<open>The exceptions that the code can meet, each with its message.\<close>

datatype js_error = TypeError string | ReferenceError string | TransportError string

fun error_text :: "js_error \<Rightarrow> string" where
  "error_text (TypeError m) = ''TypeError: '' @ m"
| "error_text (ReferenceError m) = ''ReferenceError: '' @ m"
| "error_text (TransportError m) = ''Error: '' @ m"

text \<open>
  A frame is the object handed to \<^verbatim>\<open>JSON.stringify\<close> before \<^verbatim>\<open>send\<close>:
  \<^verbatim>\<open>{ log: ... }\<close> or \<^verbatim>\<open>{ type: 'heartbeat_response' }\<close>.
\<close>

datatype frame = LogFrame string | HeartbeatResponse

text \<open>
  One WebSocket object of the \<^verbatim>\<open>ws\<close> library. \<open>readyState\<close> is 0 (CONNECTING),
  1 (OPEN), 2 (CLOSING) or 3 (CLOSED); \<open>isAlive\<close> is the flag the connection handler
  adds; \<open>sent\<close> and \<open>pings\<close> are what has been written to the peer; \<open>send_throws\<close>
  is the transport's answer to the next \<^verbatim>\<open>send\<close>.
\<close>

record socket =
  readyState :: nat
  isAlive :: bool
  sent :: "frame list"
  pings :: nat
  send_throws :: bool

text \<open>The configuration object of lines 155-161.\<close>

record config =
  USER_DATA_DIR :: string
  CHROME_PROFILES :: "string list"
  REFRESH_INTERVAL :: nat
  TARGET_JOBS :: "string list"
  AMAZON_JOBS_URL :: string

text \<open>
  The process state. Sockets are objects shared by the two sets \<^verbatim>\<open>clients\<close> and
  \<^verbatim>\<open>wss.clients\<close>, so they live in a store \<open>socks\<close> indexed by identity and the sets
  hold identities. \<open>closing\<close> lists the sockets whose \<^verbatim>\<open>'close'\<close> event the library
  still has to emit. \<open>stdout\<close> and \<open>stderr\<close> record the argument lists given to the
  original \<^verbatim>\<open>console.log\<close> and \<^verbatim>\<open>console.error\<close>. \<open>LOCALAPPDATA\<close> is the environment
  variable. \<open>running\<close> and \<open>launched\<close> are the worker of \<^verbatim>\<open>./src/monitorJobs.js\<close>.
\<close>

record server =
  socks :: "nat \<Rightarrow> socket"
  clients :: "nat list"
  wss_clients :: "nat list"
  closing :: "nat list"
  stdout :: "string list list"
  stderr :: "string list list"
  LOCALAPPDATA :: "string option"
  running :: bool
  launched :: "config list"

definition originalConsoleLog :: "string list \<Rightarrow> server \<Rightarrow> server" where
  "originalConsoleLog args s = s\<lparr>stdout := stdout s @ [args]\<rparr>"

definition originalConsoleError :: "string list \<Rightarrow> server \<Rightarrow> server" where
  "originalConsoleError args s = s\<lparr>stderr := stderr s @ [args]\<rparr>"

text \<open>
  \<^verbatim>\<open>WebSocket.send\<close> without a callback: the call throws, or the frame is written to an
  open socket, or it is dropped because the socket is closing or closed. A socket of
  the server is never CONNECTING.
\<close>

definition ws_send :: "frame \<Rightarrow> socket \<Rightarrow> js_error + socket" where
  "ws_send f k =
     (if send_throws k then Inl (TransportError ''send failed'')
      else if readyState k = 1 then Inr (k\<lparr>sent := sent k @ [f]\<rparr>)
      else Inr k)"

text \<open>
  \<^verbatim>\<open>Set.prototype.forEach\<close> over the identities in insertion order; an exception
  thrown by the callback ends the iteration and propagates.
\<close>

fun forEach :: "(nat \<Rightarrow> 'st \<Rightarrow> js_error + 'st) \<Rightarrow> nat list \<Rightarrow> 'st \<Rightarrow> js_error + 'st" where
  "forEach f [] s = Inr s"
| "forEach f (c # cs) s = (case f c s of Inl e \<Rightarrow> Inl e | Inr s' \<Rightarrow> forEach f cs s')"

subsection \<open>\<^verbatim>\<open>broadcastLog\<close> (lines 31-48)\<close>

text \<open>The callback of \<^verbatim>\<open>clients.forEach\<close>, with its \<^verbatim>\<open>try\<close>/\<^verbatim>\<open>catch\<close>.\<close>

definition broadcast_to :: "string \<Rightarrow> nat \<Rightarrow> server \<Rightarrow> js_error + server" where
  "broadcast_to logMessage c s =
     (if readyState (socks s c) = 1 then
        (case ws_send (LogFrame logMessage) (socks s c) of
           Inr k \<Rightarrow> Inr (s\<lparr>socks := (socks s)(c := k)\<rparr>)
         | Inl err \<Rightarrow>
             Inr (originalConsoleError
                    [''[BROADCAST] Error sending to client:'', error_text err] s))
      else Inr s)"

text \<open>
  The message is a string, as at every call in the file and in the frame
  \<^verbatim>\<open>{log: string}\<close>, so \<^verbatim>\<open>logMessage\<close> is the message itself.
\<close>

definition broadcastLog :: "string \<Rightarrow> server \<Rightarrow> js_error + server" where
  "broadcastLog message s =
     (let logMessage = message;
          s1 = (if \<not> includes_str logMessage ''[BROADCAST]''
                then originalConsoleLog [logMessage] s else s)
      in forEach (broadcast_to logMessage) (clients s1) s1)"

subsection \<open>The \<^verbatim>\<open>console.log\<close> and \<^verbatim>\<open>console.error\<close> overrides (lines 51-72)\<close>

text \<open>The arguments are given by their string conversions, which is what \<^verbatim>\<open>join\<close> sees.\<close>

definition console_log :: "string list \<Rightarrow> server \<Rightarrow> js_error + server" where
  "console_log args s =
     (let s1 = originalConsoleLog args s;
          message = join '' '' args
      in if \<not> includes_str message ''[BROADCAST]'' then broadcastLog message s1 else Inr s1)"

definition console_error :: "string list \<Rightarrow> server \<Rightarrow> js_error + server" where
  "console_error args s =
     (let s1 = originalConsoleError args s;
          message = join '' '' args
      in if \<not> includes_str message ''[BROADCAST]''
         then broadcastLog (''ERROR: '' @ message) s1 else Inr s1)"

text \<open>Decimal conversion of a number inside a template literal.\<close>

definition digit_char :: "nat \<Rightarrow> char" where
  "digit_char d = ''0123456789'' ! d"

function show_nat :: "nat \<Rightarrow> string" where
  "show_nat n = (if n < 10 then [digit_char n] else show_nat (n div 10) @ [digit_char (n mod 10)])"
  by pat_completeness auto
termination
  by (relation "measure id") auto

declare show_nat.simps [simp del]

subsection \<open>The connection handler and its socket handlers (lines 75-114)\<close>

text \<open>
  An exception that leaves the connection handler is uncaught: the result is \<open>Inl\<close>.
\<close>

definition on_connection :: "nat \<Rightarrow> server \<Rightarrow> js_error + server" where
  "on_connection ws s =
     (let s1 = originalConsoleLog [''[BROADCAST] New WebSocket client connected''] s;
          s2 = s1\<lparr>clients := set_add ws (clients s1)\<rparr>;
          s3 = s2\<lparr>socks := (socks s2)(ws := (socks s2 ws)\<lparr>isAlive := True\<rparr>)\<rparr>
      in case ws_send (LogFrame ''Connected to Amazon Jobs Monitor'') (socks s3 ws) of
           Inl e \<Rightarrow> Inl e
         | Inr k \<Rightarrow> Inr (s3\<lparr>socks := (socks s3)(ws := k)\<rparr>))"

definition on_pong :: "nat \<Rightarrow> server \<Rightarrow> server" where
  "on_pong ws s = s\<lparr>socks := (socks s)(ws := (socks s ws)\<lparr>isAlive := True\<rparr>)\<rparr>"

text \<open>
  What \<^verbatim>\<open>JSON.parse(message)\<close> and the read of \<^verbatim>\<open>data.type\<close> give: a heartbeat,
  another value, or an exception.
\<close>

datatype client_message = Heartbeat | OtherJson | Malformed string

definition on_message :: "nat \<Rightarrow> client_message \<Rightarrow> server \<Rightarrow> server" where
  "on_message ws m s =
     (case m of
        Heartbeat \<Rightarrow>
          (case ws_send HeartbeatResponse (socks s ws) of
             Inr k \<Rightarrow> s\<lparr>socks := (socks s)(ws := k)\<rparr>
           | Inl err \<Rightarrow>
               originalConsoleError
                 [''[BROADCAST] Error parsing client message:'', error_text err] s)
      | OtherJson \<Rightarrow> s
      | Malformed err \<Rightarrow>
          originalConsoleError [''[BROADCAST] Error parsing client message:'', err] s)"

definition on_error :: "nat \<Rightarrow> string \<Rightarrow> server \<Rightarrow> server" where
  "on_error ws err s = originalConsoleError [''[BROADCAST] WebSocket error:'', err] s"

text \<open>
  The handler of \<^verbatim>\<open>'close'\<close>. The library hands over the reason as a Buffer, which is
  truthy also when it is empty, so \<^verbatim>\<open>reason || 'None provided'\<close> is the reason itself;
  \<open>reason\<close> is its text.
\<close>

definition on_close :: "nat \<Rightarrow> nat \<Rightarrow> string \<Rightarrow> server \<Rightarrow> server" where
  "on_close ws code reason s =
     (let s1 = originalConsoleLog
                 [''[BROADCAST] WebSocket client disconnected. Code: '' @ show_nat code
                    @ '', Reason: '' @ reason] s
      in s1\<lparr>clients := set_delete ws (clients s1)\<rparr>)"

subsection \<open>The \<^verbatim>\<open>ws\<close> library\<close>

text \<open>
  \<^verbatim>\<open>ws.ping()\<close> without a callback writes a ping frame to an open socket and does
  nothing on a socket that is closing or closed.
\<close>

definition ws_ping :: "nat \<Rightarrow> server \<Rightarrow> server" where
  "ws_ping ws s =
     (if readyState (socks s ws) = 1
      then s\<lparr>socks := (socks s)(ws := (socks s ws)\<lparr>pings := Suc (pings (socks s ws))\<rparr>)\<rparr>
      else s)"

text \<open>
  \<^verbatim>\<open>ws.terminate()\<close> destroys the connection: a socket that is not yet closed becomes
  CLOSING, and its \<^verbatim>\<open>'close'\<close> event is emitted once the connection is gone.
\<close>

definition ws_terminate :: "nat \<Rightarrow> server \<Rightarrow> server" where
  "ws_terminate ws s =
     (if readyState (socks s ws) = 3 then s
      else s\<lparr>socks := (socks s)(ws := (socks s ws)\<lparr>readyState := 2\<rparr>),
             closing := set_add ws (closing s)\<rparr>)"

text \<open>
  The library emits \<^verbatim>\<open>'close'\<close> for a socket: the socket is CLOSED, the server's own
  listener takes it out of \<^verbatim>\<open>wss.clients\<close>, then the handler of line 107 runs.
\<close>

definition emit_close :: "nat \<Rightarrow> nat \<Rightarrow> string \<Rightarrow> server \<Rightarrow> server" where
  "emit_close ws code reason s =
     on_close ws code reason
       (s\<lparr>socks := (socks s)(ws := (socks s ws)\<lparr>readyState := 3\<rparr>),
          wss_clients := set_delete ws (wss_clients s),
          closing := set_delete ws (closing s)\<rparr>)"

subsection \<open>The liveness check \<^verbatim>\<open>pingInterval\<close> (lines 117-127)\<close>

definition ping_one :: "nat \<Rightarrow> server \<Rightarrow> js_error + server" where
  "ping_one ws s =
     (if isAlive (socks s ws) = False then
        Inr (ws_terminate ws
               (originalConsoleLog [''[BROADCAST] Terminating inactive connection''] s))
      else
        (let s1 = s\<lparr>socks := (socks s)(ws := (socks s ws)\<lparr>isAlive := False\<rparr>)\<rparr>
         in Inr (ws_ping ws s1)))"

definition pingInterval :: "server \<Rightarrow> js_error + server" where
  "pingInterval s = forEach ping_one (wss_clients s) s"

subsection \<open>The worker\<close>

text \<open>
  Modelled from the spec: \<^verbatim>\<open>isJobMonitorRunning\<close> of \<^verbatim>\<open>./src/monitorJobs.js\<close>, which is
  not among the sources. It reads the process-wide run state, a boolean.
\<close>

definition isJobMonitorRunning :: "server \<Rightarrow> bool" where
  "isJobMonitorRunning s = running s"

text \<open>
  Modelled from the spec: \<^verbatim>\<open>startMonitoringJobs\<close> of \<^verbatim>\<open>./src/monitorJobs.js\<close>, which is
  not among the sources. The worker takes the configuration, the run state becomes
  true, and the call returns without waiting for the worker; worker failures come
  later, as log lines.
\<close>

definition startMonitoringJobs :: "config \<Rightarrow> server \<Rightarrow> js_error + server" where
  "startMonitoringJobs cfg s = Inr (s\<lparr>running := True, launched := launched s @ [cfg]\<rparr>)"

text \<open>
  Modelled from the spec: \<^verbatim>\<open>stopMonitoringJobs\<close> of \<^verbatim>\<open>./src/monitorJobs.js\<close>, which is
  not among the sources. The worker is told to end and the run state becomes false.
\<close>

definition stopMonitoringJobs :: "server \<Rightarrow> server" where
  "stopMonitoringJobs s = s\<lparr>running := False\<rparr>"

subsection \<open>The routes \<^verbatim>\<open>/start\<close>, \<^verbatim>\<open>/stop\<close> and \<^verbatim>\<open>/status\<close> (lines 136-197)\<close>

text \<open>
  The body of a start request: each field is \<open>Some\<close> array of strings, or \<open>None\<close> when
  it is not an array.
\<close>

record start_body =
  links :: "string list option"
  positions :: "string list option"

record response =
  res_status :: nat
  res_message :: string
  res_config :: "config option"
  res_error :: "string option"

definition reply :: "nat \<Rightarrow> string \<Rightarrow> response" where
  "reply code msg = \<lparr>res_status = code, res_message = msg, res_config = None, res_error = None\<rparr>"

text \<open>
  \<^verbatim>\<open>path.join\<close> on Windows for segments that need no normalisation (no separator
  inside or at the end of a segment, no \<^verbatim>\<open>.\<close> or \<^verbatim>\<open>..\<close>): the segments joined by a
  backslash. Only \<open>USER_DATA_DIR\<close> is computed with it.
\<close>

definition path_join :: "string list \<Rightarrow> string" where
  "path_join segs = join [CHR 0x5C] segs"

text \<open>
  The handler of \<^verbatim>\<open>/start\<close>. \<^verbatim>\<open>path.join\<close> throws a TypeError when the environment
  variable is not set; the exception leaves the handler and no response is sent.
\<close>

definition start :: "start_body \<Rightarrow> server \<Rightarrow> js_error + (response \<times> server)" where
  "start body s =
     (case (links body, positions body) of
        (Some ls, Some ps) \<Rightarrow>
          if isJobMonitorRunning s then Inr (reply 400 ''Script is already running'', s)
          else
            (let jobLinks = filter (\<lambda>link. startsWith (trim link) ''https://hiring.amazon'') ls;
                 targetPositions = filter (\<lambda>pos. length pos > 0) (map (\<lambda>pos. trim pos) ps)
             in if length jobLinks = 0 \<or> length targetPositions = 0
                then Inr (reply 400 ''Provide valid Amazon job links and target positions'', s)
                else
                  (case LOCALAPPDATA s of
                     None \<Rightarrow> Inl (TypeError ''The path argument must be of type string'')
                   | Some dir \<Rightarrow>
                       (let cfg = \<lparr>USER_DATA_DIR = path_join [dir, ''Google'', ''Chrome'', ''User Data''],
                                   CHROME_PROFILES = [''Profile 11''],
                                   REFRESH_INTERVAL = 30000,
                                   TARGET_JOBS = targetPositions,
                                   AMAZON_JOBS_URL = jobLinks ! 0\<rparr>
                        in case broadcastLog (''Starting with job link: '' @ AMAZON_JOBS_URL cfg) s of
                             Inl e \<Rightarrow> Inl e
                           | Inr s1 \<Rightarrow>
                        (case broadcastLog
                                (''Looking for positions: '' @ join '', '' (TARGET_JOBS cfg)) s1 of
                             Inl e \<Rightarrow> Inl e
                           | Inr s2 \<Rightarrow>
                        (case startMonitoringJobs cfg s2 of
                             Inr s3 \<Rightarrow>
                               Inr (\<lparr>res_status = 200, res_message = ''Script started'',
                                     res_config = Some cfg, res_error = None\<rparr>, s3)
                           | Inl err \<Rightarrow>
                               (case console_error [error_text err] s2 of
                                  Inl e \<Rightarrow> Inl e
                                | Inr s3 \<Rightarrow>
                                    Inr (\<lparr>res_status = 500,
                                          res_message = ''Error starting script'',
                                          res_config = None,
                                          res_error = Some (error_text err)\<rparr>, s3)))))))
      | _ \<Rightarrow> Inr (reply 400 ''Invalid input format'', s))"

definition stop :: "server \<Rightarrow> js_error + (response \<times> server)" where
  "stop s =
     (if \<not> isJobMonitorRunning s then Inr (reply 400 ''Script is not running'', s)
      else
        (case broadcastLog ''Script stopped'' (stopMonitoringJobs s) of
           Inl e \<Rightarrow> Inl e
         | Inr s1 \<Rightarrow> Inr (reply 200 ''Script stopped'', s1)))"

definition get_status :: "server \<Rightarrow> bool" where
  "get_status s = isJobMonitorRunning s"

subsection \<open>The events of the backend process\<close>

text \<open>
  The process as it starts: no subscriber, nothing logged, no worker. Every socket
  identity names a socket that is not connected yet.
\<close>

definition unconnected :: socket where
  "unconnected = \<lparr>readyState = 0, isAlive = False, sent = [], pings = 0, send_throws = False\<rparr>"

definition initial_server :: "string option \<Rightarrow> server" where
  "initial_server env =
     \<lparr>socks = (\<lambda>_. unconnected), clients = [], wss_clients = [], closing = [],
      stdout = [], stderr = [], LOCALAPPDATA = env, running = False, launched = []\<rparr>"

text \<open>
  The library completes a handshake: the socket is OPEN and in \<^verbatim>\<open>wss.clients\<close> before
  \<^verbatim>\<open>'connection'\<close> is emitted.
\<close>

definition accept_socket :: "nat \<Rightarrow> server \<Rightarrow> server" where
  "accept_socket ws s =
     s\<lparr>socks := (socks s)(ws := (socks s ws)\<lparr>readyState := 1\<rparr>),
       wss_clients := set_add ws (wss_clients s)\<rparr>"

text \<open>
  One event of the process. Socket events reach the handlers of a socket from its
  connection to its \<^verbatim>\<open>'close'\<close>. \<open>TransportFault\<close> is the environment: the transport
  of a socket starts to fail. \<open>Publish\<close> is the worker writing to its log sink. The
  result \<open>Inl\<close> is an exception that no handler caught.
\<close>

datatype server_event =
    Connect nat
  | Pong nat
  | Message nat client_message
  | SocketFailure nat string
  | Close nat nat string
  | TransportFault nat
  | PingCycle
  | ConsoleLog "string list"
  | ConsoleError "string list"
  | Publish string
  | StartRequest start_body
  | StopRequest
  | StatusRequest

fun server_step :: "server_event \<Rightarrow> server \<Rightarrow> js_error + server" where
  "server_step (Connect ws) s =
     (if ws \<in> set (wss_clients s) then Inr s else on_connection ws (accept_socket ws s))"
| "server_step (Pong ws) s = Inr (if ws \<in> set (wss_clients s) then on_pong ws s else s)"
| "server_step (Message ws m) s =
     Inr (if ws \<in> set (wss_clients s) then on_message ws m s else s)"
| "server_step (SocketFailure ws err) s =
     Inr (if ws \<in> set (wss_clients s) then on_error ws err s else s)"
| "server_step (Close ws code reason) s =
     Inr (if ws \<in> set (wss_clients s) then emit_close ws code reason s else s)"
| "server_step (TransportFault ws) s =
     Inr (s\<lparr>socks := (socks s)(ws := (socks s ws)\<lparr>send_throws := True\<rparr>)\<rparr>)"
| "server_step PingCycle s = pingInterval s"
| "server_step (ConsoleLog args) s = console_log args s"
| "server_step (ConsoleError args) s = console_error args s"
| "server_step (Publish m) s = broadcastLog m s"
| "server_step (StartRequest body) s =
     (case start body s of Inl e \<Rightarrow> Inl e | Inr (r, s') \<Rightarrow> Inr s')"
| "server_step StopRequest s =
     (case stop s of Inl e \<Rightarrow> Inl e | Inr (r, s') \<Rightarrow> Inr s')"
| "server_step StatusRequest s = Inr s"

fun run_server :: "server_event list \<Rightarrow> server \<Rightarrow> js_error + server" where
  "run_server [] s = Inr s"
| "run_server (e # es) s =
     (case server_step e s of Inl err \<Rightarrow> Inl err | Inr s' \<Rightarrow> run_server es s')"

section \<open>Client session: the state of \<^verbatim>\<open>src/unnamed/part_000\<close>\<close>

text \<open>
  The refs and the React state of \<^verbatim>\<open>App\<close> that the connection logic uses. A log entry
  is given by its message; its timestamp is the wall clock and is left out.
  \<open>wsockets\<close> holds the \<^verbatim>\<open>readyState\<close> of every WebSocket object constructed so far,
  by identity, and \<open>ws_current\<close> is \<^verbatim>\<open>ws.current\<close>. \<open>timeouts\<close> holds the pending
  \<^verbatim>\<open>setTimeout(connectWebSocket, delay)\<close> calls as pairs of timer id and delay; timer
  ids are positive. \<open>intervals\<close> holds the running heartbeat intervals, \<open>heartbeats\<close>
  counts the heartbeat frames sent, \<open>fetches\<close> counts the status requests started.
  \<open>console\<close> is the browser console, \<open>uncaught\<close> the exceptions that left an event
  handler. \<open>blocked\<close> is the environment's answer to \<^verbatim>\<open>new WebSocket(WS_URL)\<close>: the
  constructor throws.
\<close>

record session =
  logs :: "string list"
  isRunning :: bool
  isConnected :: bool
  statusMessage :: string
  wsockets :: "nat list"
  ws_current :: "nat option"
  retryCount :: nat
  retryTimeoutRef :: "nat option"
  timeouts :: "(nat \<times> nat) list"
  last_timer :: nat
  intervals :: "nat list"
  heartbeats :: nat
  fetches :: nat
  console :: "string list"
  uncaught :: "js_error list"
  blocked :: bool

definition MAX_RETRIES :: nat where
  "MAX_RETRIES = 10"

definition initial_session :: session where
  "initial_session =
     \<lparr>logs = [], isRunning = False, isConnected = False, statusMessage = [],
      wsockets = [], ws_current = None, retryCount = 0, retryTimeoutRef = None,
      timeouts = [], last_timer = 0, intervals = [], heartbeats = 0, fetches = 0,
      console = [], uncaught = [], blocked = False\<rparr>"

definition setLogs_append :: "string \<Rightarrow> session \<Rightarrow> session" where
  "setLogs_append m s = s\<lparr>logs := logs s @ [m]\<rparr>"

definition console_write :: "string \<Rightarrow> session \<Rightarrow> session" where
  "console_write m s = s\<lparr>console := console s @ [m]\<rparr>"

definition clearTimeout :: "nat \<Rightarrow> session \<Rightarrow> session" where
  "clearTimeout t s = s\<lparr>timeouts := filter (\<lambda>p. fst p \<noteq> t) (timeouts s)\<rparr>"

text \<open>\<^verbatim>\<open>retryTimeoutRef.current = setTimeout(connectWebSocket, retryDelay)\<close>\<close>

definition schedule_retry :: "nat \<Rightarrow> session \<Rightarrow> session" where
  "schedule_retry retryDelay s =
     (let t = Suc (last_timer s)
      in s\<lparr>timeouts := timeouts s @ [(t, retryDelay)], last_timer := t,
           retryTimeoutRef := Some t\<rparr>)"

text \<open>\<^verbatim>\<open>Math.min(1000 * Math.pow(2, retryCount.current - 1), 30000)\<close>, read after the increment.\<close>

definition retryDelay_of :: "nat \<Rightarrow> nat" where
  "retryDelay_of n = min (1000 * 2 ^ (n - 1)) 30000"

text \<open>\<^verbatim>\<open>WebSocket.close()\<close> of the browser: an open or connecting socket becomes CLOSING.\<close>

definition close_socket :: "nat \<Rightarrow> session \<Rightarrow> session" where
  "close_socket i s =
     (if i < length (wsockets s) \<and> (wsockets s ! i = 1 \<or> wsockets s ! i = 0)
      then s\<lparr>wsockets := (wsockets s)[i := 2]\<rparr> else s)"

subsection \<open>\<^verbatim>\<open>fetchStatus\<close> (lines 146-177)\<close>

text \<open>Up to the first \<^verbatim>\<open>await\<close>: the log entry and the request.\<close>

definition fetchStatus :: "session \<Rightarrow> session" where
  "fetchStatus s =
     (let s1 = setLogs_append ''Checking server status...'' s
      in s1\<lparr>fetches := Suc (fetches s1)\<rparr>)"

text \<open>After the \<^verbatim>\<open>await\<close>: the answer, or the \<^verbatim>\<open>catch\<close> block.\<close>

definition fetchStatus_done :: "bool \<Rightarrow> session \<Rightarrow> session" where
  "fetchStatus_done b s =
     setLogs_append (''Server status: '' @ (if b then ''Running'' else ''Stopped''))
       (s\<lparr>isRunning := b\<rparr>)"

definition fetchStatus_failed :: "string \<Rightarrow> session \<Rightarrow> session" where
  "fetchStatus_failed m s =
     (let s1 = console_write ''Error fetching status:'' s;
          s2 = s1\<lparr>statusMessage :=
                  ''Error connecting to server. Please ensure the backend is running.''\<rparr>;
          s3 = setLogs_append (''Error fetching status: '' @ m) s2
      in s3\<lparr>isConnected := False\<rparr>)"

subsection \<open>\<^verbatim>\<open>connectWebSocket\<close> (lines 44-144)\<close>

text \<open>
  The entry that announces an attempt is built by the updater given to \<^verbatim>\<open>setLogs\<close>,
  which reads \<^verbatim>\<open>retryCount.current\<close> when React applies it; the model reads the counter
  where the call stands. The two agree whenever the counter is not changed later in
  the same call, that is, whenever the constructor does not throw.
\<close>

definition connectWebSocket :: "session \<Rightarrow> session" where
  "connectWebSocket s =
     (let s0 = (case retryTimeoutRef s of
                  Some t \<Rightarrow> if t \<noteq> 0 then clearTimeout t s else s
                | None \<Rightarrow> s)
      in if retryCount s0 \<ge> MAX_RETRIES then
           (let s1 = console_write ''WebSocket: Max retries reached.'' s0
            in s1\<lparr>statusMessage :=
                    ''Failed to connect to WebSocket. Please check if the server is running.'',
                  isConnected := False\<rparr>)
         else
           (let s1 = (case ws_current s0 of Some i \<Rightarrow> close_socket i s0 | None \<Rightarrow> s0);
                s2 = setLogs_append
                       (''Connecting to WebSocket (attempt '' @ show_nat (retryCount s1 + 1)
                          @ ''/'' @ show_nat MAX_RETRIES @ '')...'') s1
            in if blocked s2 then
                 (let s3 = console_write ''Failed to create WebSocket:'' s2;
                      s4 = s3\<lparr>statusMessage := ''Failed to create WebSocket connection''\<rparr>;
                      s5 = s4\<lparr>retryCount := retryCount s4 + 1\<rparr>
                  in schedule_retry (retryDelay_of (retryCount s5)) s5)
               else
                 s2\<lparr>wsockets := wsockets s2 @ [0],
                    ws_current := Some (length (wsockets s2))\<rparr>))"

subsection \<open>The socket handlers (lines 71-134)\<close>

text \<open>\<^verbatim>\<open>ws.current.onopen\<close>\<close>

definition onopen :: "session \<Rightarrow> session" where
  "onopen s =
     (let s1 = console_write ''WebSocket connected.'' s;
          s2 = s1\<lparr>isConnected := True, statusMessage := ''Connected to server'',
                  retryCount := 0\<rparr>;
          s3 = s2\<lparr>intervals := intervals s2 @ [length (intervals s2)]\<rparr>;
          s4 = setLogs_append ''WebSocket connected successfully'' s3
      in fetchStatus s4)"

text \<open>The callback of the heartbeat interval \<open>h\<close> created in \<^verbatim>\<open>onopen\<close>.\<close>

definition heartbeat_tick :: "nat \<Rightarrow> session \<Rightarrow> session" where
  "heartbeat_tick h s =
     (case ws_current s of
        Some i \<Rightarrow>
          if i < length (wsockets s) \<and> wsockets s ! i = 1
          then s\<lparr>heartbeats := Suc (heartbeats s)\<rparr>
          else s\<lparr>intervals := removeAll h (intervals s)\<rparr>
      | None \<Rightarrow> s\<lparr>intervals := removeAll h (intervals s)\<rparr>)"

text \<open>
  What an identifier is bound to: the id of an interval, or something else.
\<close>

datatype binding = Interval nat | Other

text \<open>
  The identifiers that the body of \<^verbatim>\<open>ws.current.onclose\<close> can see: its parameter, the
  declarations of \<^verbatim>\<open>App\<close> and of the module, and the globals it uses. The body of
  \<^verbatim>\<open>connectWebSocket\<close> declares nothing outside the handlers, and the
  \<^verbatim>\<open>const heartbeatInterval\<close> of line 77 belongs to the body of \<^verbatim>\<open>onopen\<close>.
\<close>

definition onclose_scope :: "(string \<times> binding) list" where
  "onclose_scope = map (\<lambda>x. (x, Other))
     [''event'',
      ''jobLinks'', ''setJobLinks'', ''positions'', ''setPositions'', ''logs'', ''setLogs'',
      ''isRunning'', ''setIsRunning'', ''isConnected'', ''setIsConnected'',
      ''statusMessage'', ''setStatusMessage'', ''errors'', ''setErrors'',
      ''logEndRef'', ''ws'', ''retryCount'', ''MAX_RETRIES'', ''retryTimeoutRef'',
      ''connectWebSocket'', ''fetchStatus'', ''validateInputs'', ''startMonitoring'',
      ''stopMonitoring'', ''handleCheckConnection'', ''handleLinkChange'',
      ''handlePositionChange'', ''addLink'', ''removeLink'', ''addPosition'',
      ''removePosition'',
      ''React'', ''useState'', ''useEffect'', ''useRef'', ''Play'', ''Square'', ''Loader'',
      ''RefreshCw'', ''Plus'', ''X'', ''AlertCircle'', ''API_URL'', ''WS_URL'', ''App'',
      ''console'', ''clearInterval'', ''setTimeout'', ''Math'', ''Date'', ''WebSocket'']"

text \<open>Reading an identifier: a ReferenceError when no enclosing scope declares it.\<close>

definition resolve :: "string \<Rightarrow> (string \<times> binding) list \<Rightarrow> js_error + binding" where
  "resolve x scope =
     (case map_of scope x of
        None \<Rightarrow> Inl (ReferenceError (x @ '' is not defined''))
      | Some b \<Rightarrow> Inr b)"

text \<open>\<^verbatim>\<open>clearInterval\<close>: an argument that is no interval id is ignored.\<close>

definition clearInterval :: "binding \<Rightarrow> session \<Rightarrow> session" where
  "clearInterval b s =
     (case b of Interval h \<Rightarrow> s\<lparr>intervals := removeAll h (intervals s)\<rparr> | Other \<Rightarrow> s)"

text \<open>
  \<^verbatim>\<open>ws.current.onclose\<close>. The statements run in order; an exception ends the handler
  and is reported as uncaught.
\<close>

definition onclose :: "nat \<Rightarrow> session \<Rightarrow> session" where
  "onclose code s =
     (let s1 = console_write
                 (''WebSocket disconnected (code: '' @ show_nat code @ ''). Retrying...'') s
      in case resolve ''heartbeatInterval'' onclose_scope of
           Inl e \<Rightarrow> s1\<lparr>uncaught := uncaught s1 @ [e]\<rparr>
         | Inr b \<Rightarrow>
             (let s2 = clearInterval b s1;
                  s3 = s2\<lparr>isConnected := False,
                          statusMessage :=
                            ''Disconnected from server (code: '' @ show_nat code @ '')'',
                          retryCount := retryCount s2 + 1\<rparr>;
                  s4 = setLogs_append
                         (''WebSocket disconnected. Retrying ('' @ show_nat (retryCount s3)
                            @ ''/'' @ show_nat MAX_RETRIES @ '')...'') s3
              in schedule_retry (retryDelay_of (retryCount s4)) s4))"

text \<open>\<^verbatim>\<open>ws.current.onerror\<close>\<close>

definition onerror :: "session \<Rightarrow> session" where
  "onerror s =
     setLogs_append ''WebSocket connection error'' (console_write ''WebSocket error:'' s)"

text \<open>
  \<^verbatim>\<open>ws.current.onmessage\<close>: the data parses to an object with a non-empty \<^verbatim>\<open>log\<close>
  (\<open>Inr (Some m)\<close>), to another value (\<open>Inr None\<close>), or the parse throws (\<open>Inl\<close>).
\<close>

definition onmessage :: "string + string option \<Rightarrow> session \<Rightarrow> session" where
  "onmessage d s =
     (case d of
        Inr (Some m) \<Rightarrow> setLogs_append m s
      | Inr None \<Rightarrow> s
      | Inl err \<Rightarrow> console_write ''Error parsing WebSocket message:'' s)"

subsection \<open>\<^verbatim>\<open>handleCheckConnection\<close> (lines 339-353) and the mount effect (lines 24-37)\<close>

definition handleCheckConnection :: "session \<Rightarrow> session" where
  "handleCheckConnection s =
     (let s1 = setLogs_append ''Manual connection check initiated...'' s;
          s2 = s1\<lparr>retryCount := 0\<rparr>;
          s3 = connectWebSocket s2
      in fetchStatus s3)"

text \<open>
  The effect run at mount calls \<^verbatim>\<open>connectWebSocket\<close> and sets a timer of 3000 ms for
  \<^verbatim>\<open>fetchStatus\<close>; the timer's firing is the event \<open>DelayedStatusCheck\<close> below.
\<close>

definition mount :: "session \<Rightarrow> session" where
  "mount s = connectWebSocket s"

subsection \<open>The events of a session\<close>

text \<open>
  What can happen to a session, one event at a time: a pending timeout fires, the
  browser reports on a socket, a heartbeat interval ticks, a status request ends, the
  delayed status check of the mount effect runs, the environment starts or stops
  refusing the WebSocket constructor, or the user asks for a reconnect. The browser
  changes the socket's \<^verbatim>\<open>readyState\<close> before it calls the handler.
\<close>

datatype client_event =
    TimeoutFired nat
  | SocketOpened nat
  | SocketClosed nat nat
  | SocketError nat
  | SocketMessage nat "string + string option"
  | HeartbeatTick nat
  | StatusAnswer bool
  | StatusFailed string
  | DelayedStatusCheck
  | ConstructorPolicy bool
  | ManualReconnect

fun step :: "client_event \<Rightarrow> session \<Rightarrow> session" where
  "step (TimeoutFired t) s =
     (if t \<in> fst ` set (timeouts s) then connectWebSocket (clearTimeout t s) else s)"
| "step (SocketOpened i) s =
     (if i < length (wsockets s) \<and> wsockets s ! i = 0
      then onopen (s\<lparr>wsockets := (wsockets s)[i := 1]\<rparr>) else s)"
| "step (SocketClosed i code) s =
     (if i < length (wsockets s) \<and> wsockets s ! i \<noteq> 3
      then onclose code (s\<lparr>wsockets := (wsockets s)[i := 3]\<rparr>) else s)"
| "step (SocketError i) s = (if i < length (wsockets s) then onerror s else s)"
| "step (SocketMessage i d) s =
     (if i < length (wsockets s) \<and> wsockets s ! i = 1 then onmessage d s else s)"
| "step (HeartbeatTick h) s = (if h \<in> set (intervals s) then heartbeat_tick h s else s)"
| "step (StatusAnswer b) s = (if 0 < fetches s then fetchStatus_done b (s\<lparr>fetches := fetches s - 1\<rparr>) else s)"
| "step (StatusFailed m) s = (if 0 < fetches s then fetchStatus_failed m (s\<lparr>fetches := fetches s - 1\<rparr>) else s)"
| "step DelayedStatusCheck s = fetchStatus s"
| "step (ConstructorPolicy b) s = s\<lparr>blocked := b\<rparr>"
| "step ManualReconnect s = handleCheckConnection s"

fun run :: "client_event list \<Rightarrow> session \<Rightarrow> session" where
  "run [] s = s"
| "run (e # es) s = run es (step e s)"

section \<open>What the claims speak of\<close>

text \<open>What one subscriber holds after the fan-out.\<close>

definition delivered :: "string \<Rightarrow> socket \<Rightarrow> socket" where
  "delivered m k =
     (if readyState k = 1 \<and> \<not> send_throws k then k\<lparr>sent := sent k @ [LogFrame m]\<rparr> else k)"

text \<open>An open subscriber whose transport rejects the frame.\<close>

definition send_fails :: "socket \<Rightarrow> bool" where
  "send_fails k = (readyState k = 1 \<and> send_throws k)"

text \<open>The subscribers that a fan-out reaches: in the live set, open, with a working transport.\<close>

definition reached :: "server \<Rightarrow> nat \<Rightarrow> bool" where
  "reached s c = (c \<in> set (clients s) \<and> readyState (socks s c) = 1 \<and> \<not> send_throws (socks s c))"

text \<open>The acceptance test of a link in the claims' words: after trimming, it begins with the prefix.\<close>

definition link_ok :: "string \<Rightarrow> bool" where
  "link_ok l = (take (length ''https://hiring.amazon'') (trim l) = ''https://hiring.amazon'')"

text \<open>The acceptance test of a position in the claims' words: it is not empty after trimming.\<close>

definition position_ok :: "string \<Rightarrow> bool" where
  "position_ok p = (trim p \<noteq> [])"

text \<open>What the liveness check does to one socket of \<^verbatim>\<open>wss.clients\<close>.\<close>

definition checked :: "socket \<Rightarrow> socket" where
  "checked k =
     (if \<not> isAlive k then (if readyState k = 3 then k else k\<lparr>readyState := 2\<rparr>)
      else if readyState k = 1 then k\<lparr>isAlive := False, pings := Suc (pings k)\<rparr>
      else k\<lparr>isAlive := False\<rparr>)"

text \<open>An event that is neither a liveness check nor the close of socket \<open>i\<close>.\<close>

definition between_checks :: "nat \<Rightarrow> server_event \<Rightarrow> bool" where
  "between_checks i e =
     (case e of PingCycle \<Rightarrow> False | Close ws code reason \<Rightarrow> ws \<noteq> i | _ \<Rightarrow> True)"

text \<open>What the liveness check and the close handler see of socket \<open>i\<close>, its flag apart.\<close>

definition contact :: "nat \<Rightarrow> server \<Rightarrow> nat \<times> nat \<times> bool \<times> bool" where
  "contact i s =
     (readyState (socks s i), pings (socks s i), i \<in> set (clients s), i \<in> set (closing s))"

text \<open>The first statement of \<^verbatim>\<open>connectWebSocket\<close>, on the list of pending timeouts.\<close>

definition without_retry :: "nat option \<Rightarrow> (nat \<times> nat) list \<Rightarrow> (nat \<times> nat) list" where
  "without_retry ref ts =
     (case ref of Some t \<Rightarrow> if t \<noteq> 0 then filter (\<lambda>p. fst p \<noteq> t) ts else ts | None \<Rightarrow> ts)"

text \<open>
  Every pending timeout is the one held in \<^verbatim>\<open>retryTimeoutRef\<close>, and timer ids in use are
  not handed out again.
\<close>

definition tracked :: "session \<Rightarrow> bool" where
  "tracked s =
     (\<forall>p\<in>set (timeouts s). retryTimeoutRef s = Some (fst p) \<and> fst p \<noteq> 0 \<and> fst p \<le> last_timer s)"

text \<open>
  The connection state of a session: counter, delays of the pending timeouts, state
  of the current channel, connected flag and status line.
\<close>

definition connection_state ::
  "session \<Rightarrow> nat \<times> nat list \<times> nat option \<times> bool \<times> string" where
  "connection_state s =
     (retryCount s, map snd (timeouts s),
      (case ws_current s of
         Some i \<Rightarrow> if i < length (wsockets s) then Some (wsockets s ! i) else None
       | None \<Rightarrow> None),
      isConnected s, statusMessage s)"

text \<open>The session has given up: the counter is at the ceiling and no channel is still connecting.\<close>

definition gave_up :: "session \<Rightarrow> bool" where
  "gave_up s = (MAX_RETRIES \<le> retryCount s \<and> 0 \<notin> set (wsockets s))"

text \<open>
  At most the current channel is connecting or open, and at the ceiling none is: a
  counter that has reached the ceiling was last raised by a call that had closed the
  current channel.
\<close>

definition single_channel :: "session \<Rightarrow> bool" where
  "single_channel s =
     ((\<forall>i<length (wsockets s). ws_current s \<noteq> Some i \<longrightarrow> 2 \<le> wsockets s ! i) \<and>
      (MAX_RETRIES \<le> retryCount s \<longrightarrow> (\<forall>r\<in>set (wsockets s). 2 \<le> r)))"

text \<open>The channels after line 60 has closed the current one.\<close>

definition after_close :: "session \<Rightarrow> nat list" where
  "after_close s =
     (case ws_current s of Some i \<Rightarrow> wsockets (close_socket i s) | None \<Rightarrow> wsockets s)"

section \<open>Concrete states and requests\<close>

text \<open>An open socket that has answered its last ping and has been sent nothing.\<close>

definition open_socket :: socket where
  "open_socket = \<lparr>readyState = 1, isAlive = True, sent = [], pings = 0, send_throws = False\<rparr>"

text \<open>Four subscribers: two that are well, one whose transport fails, one that is closing.\<close>

definition demo_server :: server where
  "demo_server =
     (initial_server (Some ''C:''))
       \<lparr>socks := (\<lambda>_. unconnected)
                  (0 := open_socket,
                   1 := open_socket\<lparr>send_throws := True\<rparr>,
                   2 := open_socket\<lparr>readyState := 2\<rparr>,
                   3 := open_socket),
        clients := [0, 1, 2, 3], wss_clients := [0, 1, 2, 3]\<rparr>"

text \<open>The process after two clients have connected.\<close>

definition two_subscribers :: server where
  "two_subscribers =
     (case run_server [Connect 0, Connect 1] (initial_server None) of
        Inr s \<Rightarrow> s
      | Inl e \<Rightarrow> initial_server None)"

text \<open>A request with one link and one position, both accepted.\<close>

definition valid_body :: start_body where
  "valid_body = \<lparr>links = Some [''https://hiring.amazon.com/app#/jobSearch''],
                  positions = Some [''Warehouse Associate'']\<rparr>"

text \<open>A request whose first accepted link and first position come with surrounding white space.\<close>

definition padded_body :: start_body where
  "padded_body =
     \<lparr>links = Some [''https://example.com/jobs'', ''  https://hiring.amazon.ca/x '',
                    ''https://hiring.amazon.com/y''],
      positions = Some ['' Picker '', ''   '', ''Packer'']\<rparr>"

text \<open>A request whose first link has the wrong prefix and whose second position is blank.\<close>

definition mixed_body :: start_body where
  "mixed_body =
     \<lparr>links = Some [''https://careers.other.com/x'', ''https://hiring.amazon.com/y''],
      positions = Some [''Engineer'', '' '']\<rparr>"

text \<open>A request with no link and no position.\<close>

definition empty_body :: start_body where
  "empty_body = \<lparr>links = Some [], positions = Some []\<rparr>"

text \<open>The process after it has accepted a start request.\<close>

definition running_server :: server where
  "running_server =
     (case start valid_body (initial_server (Some ''C:'')) of
        Inr (r, s) \<Rightarrow> s
      | Inl e \<Rightarrow> initial_server None)"

text \<open>A session after its mount and the opening of its channel.\<close>

definition connected_session :: session where
  "connected_session = run [SocketOpened 0] (mount initial_session)"

text \<open>A session in an environment where the WebSocket constructor throws.\<close>

definition blocked_session :: session where
  "blocked_session = initial_session\<lparr>blocked := True\<rparr>"

text \<open>The blocked session after its mount and the nine retries that follow: ten failed attempts.\<close>

definition ceiling_session :: session where
  "ceiling_session = run (map TimeoutFired [1, 2, 3, 4, 5, 6, 7, 8, 9]) (mount blocked_session)"

text \<open>A session with a retry pending, after the environment has stopped refusing the constructor.\<close>

definition retrying_session :: session where
  "retrying_session = run [TimeoutFired 1, ConstructorPolicy False] (mount blocked_session)"

section \<open>Properties of the string functions\<close>

lemma startsWith_iff: "startsWith s p \<longleftrightarrow> (\<exists>r. s = p @ r)"
  by (induction s p rule: startsWith.induct) auto

lemma includes_str_iff: "includes_str s sub \<longleftrightarrow> (\<exists>a b. s = a @ sub @ b)"
proof (induction s)
  case Nil
  show ?case by auto
next
  case (Cons c cs)
  have "(\<exists>a b. c # cs = a @ sub @ b) \<longleftrightarrow> (\<exists>r. c # cs = sub @ r) \<or> (\<exists>a b. cs = a @ sub @ b)"
  proof
    assume "\<exists>a b. c # cs = a @ sub @ b"
    then obtain a b where ab: "c # cs = a @ sub @ b" by blast
    show "(\<exists>r. c # cs = sub @ r) \<or> (\<exists>a b. cs = a @ sub @ b)"
    proof (cases a)
      case Nil
      with ab show ?thesis by auto
    next
      case (Cons x a')
      with ab have "cs = a' @ sub @ b" by simp
      then show ?thesis by blast
    qed
  next
    assume "(\<exists>r. c # cs = sub @ r) \<or> (\<exists>a b. cs = a @ sub @ b)"
    then show "\<exists>a b. c # cs = a @ sub @ b"
    proof
      assume "\<exists>r. c # cs = sub @ r"
      then obtain r where "c # cs = [] @ sub @ r" by auto
      then show ?thesis by blast
    next
      assume "\<exists>a b. cs = a @ sub @ b"
      then obtain a b where "c # cs = (c # a) @ sub @ b" by auto
      then show ?thesis by blast
    qed
  qed
  with Cons show ?case by (simp add: startsWith_iff del: startsWith.simps)
qed

lemma dropWhile_fix: "xs = [] \<or> \<not> P (hd xs) \<Longrightarrow> dropWhile P xs = xs"
  by (cases xs) auto

lemma trim_no_leading: "dropWhile is_whitespace (trim s) = trim s"
proof -
  define t where "t = dropWhile is_whitespace s"
  define u where "u = dropWhile is_whitespace (rev t)"
  have tr: "trim s = rev u" by (simp add: trim_def t_def u_def)
  show ?thesis
  proof (cases "u = []")
    case True
    with tr show ?thesis by simp
  next
    case False
    then obtain x where x: "x \<in> set (rev t)" "\<not> is_whitespace x"
      unfolding u_def by (auto simp: dropWhile_eq_Nil_conv)
    then have "last u = last (rev t)" unfolding u_def by (rule dropWhile_last)
    moreover from x have tne: "t \<noteq> []" by auto
    ultimately have "last u = hd t" by (simp add: last_rev)
    moreover from tne have "\<not> is_whitespace (hd t)"
      unfolding t_def by (rule hd_dropWhile)
    ultimately have "\<not> is_whitespace (hd (rev u))" using False by (simp add: hd_rev)
    then show ?thesis unfolding tr by (intro dropWhile_fix) simp
  qed
qed

lemma trim_idem: "trim (trim s) = trim s"
proof -
  have "trim (trim s) = rev (dropWhile is_whitespace (rev (trim s)))"
    unfolding trim_def [of "trim s"] by (simp only: trim_no_leading)
  also have "rev (trim s) = dropWhile is_whitespace (rev (dropWhile is_whitespace s))"
    by (simp add: trim_def)
  also have "rev (dropWhile is_whitespace (dropWhile is_whitespace (rev (dropWhile is_whitespace s)))) = trim s"
    by (simp add: trim_def)
  finally show ?thesis .
qed

section \<open>The fan-out of \<^verbatim>\<open>broadcastLog\<close>\<close>

lemma forEach_broadcast_Inr: "\<exists>s'. forEach (broadcast_to m) cs s = Inr s'"
  by (induction cs arbitrary: s) (auto simp: broadcast_to_def ws_send_def split: sum.splits)

lemma broadcast_to_fields:
  "broadcast_to m c s = Inr s' \<Longrightarrow>
     running s' = running s \<and> launched s' = launched s \<and> clients s' = clients s \<and>
     wss_clients s' = wss_clients s \<and> closing s' = closing s \<and>
     LOCALAPPDATA s' = LOCALAPPDATA s \<and> stdout s' = stdout s"
  by (auto simp: broadcast_to_def ws_send_def originalConsoleError_def split: if_splits sum.splits)

lemma forEach_broadcast_fields:
  "forEach (broadcast_to m) cs s = Inr s' \<Longrightarrow>
     running s' = running s \<and> launched s' = launched s \<and> clients s' = clients s \<and>
     wss_clients s' = wss_clients s \<and> closing s' = closing s \<and>
     LOCALAPPDATA s' = LOCALAPPDATA s \<and> stdout s' = stdout s"
proof (induction cs arbitrary: s)
  case Nil
  then show ?case by simp
next
  case (Cons c cs)
  from forEach_broadcast_Inr [of m "[c]" s] obtain s1 where s1: "broadcast_to m c s = Inr s1"
    by (auto split: sum.splits)
  with Cons.prems have "forEach (broadcast_to m) cs s1 = Inr s'" by simp
  from Cons.IH [OF this] broadcast_to_fields [OF s1] show ?case by simp
qed

lemma broadcast_to_socks:
  "broadcast_to m c s = Inr s' \<Longrightarrow> socks s' = (socks s)(c := delivered m (socks s c))"
  by (auto simp: broadcast_to_def ws_send_def originalConsoleError_def delivered_def
           split: if_splits sum.splits)

lemma forEach_broadcast_socks:
  "distinct cs \<Longrightarrow> forEach (broadcast_to m) cs s = Inr s' \<Longrightarrow>
     socks s' i = (if i \<in> set cs then delivered m (socks s i) else socks s i)"
proof (induction cs arbitrary: s)
  case Nil
  then show ?case by simp
next
  case (Cons c cs)
  from forEach_broadcast_Inr [of m "[c]" s] obtain s1 where s1: "broadcast_to m c s = Inr s1"
    by (auto split: sum.splits)
  with Cons.prems have rest: "forEach (broadcast_to m) cs s1 = Inr s'" by simp
  from Cons.prems have d: "distinct cs" and c: "c \<notin> set cs" by auto
  from Cons.IH [OF d rest] broadcast_to_socks [OF s1] c show ?case by auto
qed

lemma delivered_flags [simp]:
  "readyState (delivered m k) = readyState k" "send_throws (delivered m k) = send_throws k"
  "isAlive (delivered m k) = isAlive k" "pings (delivered m k) = pings k"
  by (simp_all add: delivered_def)

lemma broadcast_to_stderr:
  "broadcast_to m c s = Inr s' \<Longrightarrow>
     stderr s' = stderr s @ (if send_fails (socks s c)
        then [[''[BROADCAST] Error sending to client:'', ''Error: send failed'']] else [])"
  by (auto simp: broadcast_to_def ws_send_def originalConsoleError_def send_fails_def
           split: if_splits sum.splits)

lemma forEach_broadcast_stderr:
  "distinct cs \<Longrightarrow> forEach (broadcast_to m) cs s = Inr s' \<Longrightarrow>
     stderr s' = stderr s @ replicate (length (filter (\<lambda>c. send_fails (socks s c)) cs))
        [''[BROADCAST] Error sending to client:'', ''Error: send failed'']"
proof (induction cs arbitrary: s)
  case Nil
  then show ?case by simp
next
  case (Cons c cs)
  from forEach_broadcast_Inr [of m "[c]" s] obtain s1 where s1: "broadcast_to m c s = Inr s1"
    by (auto split: sum.splits)
  with Cons.prems have rest: "forEach (broadcast_to m) cs s1 = Inr s'" by simp
  from Cons.prems have d: "distinct cs" and c: "c \<notin> set cs" by auto
  have same: "filter (\<lambda>x. send_fails (socks s1 x)) cs = filter (\<lambda>x. send_fails (socks s x)) cs"
    using c by (intro filter_cong) (auto simp: broadcast_to_socks [OF s1])
  from Cons.IH [OF d rest] broadcast_to_stderr [OF s1] same show ?case
    by (simp flip: replicate_Suc)
qed

lemma broadcastLog_effect:
  assumes "distinct (clients s)"
  shows "\<exists>s'. broadcastLog m s = Inr s' \<and>
           (\<forall>c. socks s' c = (if c \<in> set (clients s) then delivered m (socks s c) else socks s c)) \<and>
           clients s' = clients s \<and>
           stderr s' = stderr s @
              replicate (length (filter (\<lambda>c. send_fails (socks s c)) (clients s)))
                [''[BROADCAST] Error sending to client:'', ''Error: send failed'']"
proof -
  define s1 where "s1 = (if \<not> includes_str m ''[BROADCAST]'' then originalConsoleLog [m] s else s)"
  have s1: "clients s1 = clients s" "socks s1 = socks s" "stderr s1 = stderr s"
    by (simp_all add: s1_def originalConsoleLog_def)
  obtain s' where s': "forEach (broadcast_to m) (clients s1) s1 = Inr s'"
    using forEach_broadcast_Inr by blast
  have b: "broadcastLog m s = Inr s'"
    using s' by (simp add: broadcastLog_def Let_def s1_def)
  from assms have d: "distinct (clients s1)" by (simp add: s1)
  show ?thesis
    using b forEach_broadcast_socks [OF d s'] forEach_broadcast_stderr [OF d s']
      forEach_broadcast_fields [OF s'] by (simp add: s1)
qed

text \<open>
  Claim C1. For every published message and every subscriber of the live set whose
  channel is open, \<open>broadcastLog\<close> delivers the frame \<open>{log: message}\<close> to that
  subscriber, exactly once; a send that fails is caught for that subscriber alone,
  logged to the original error console, and leaves the delivery to every other
  subscriber as it is; the call returns normally (\<open>Inr\<close>) whatever the transports do.
  The live set holds each subscriber once.
\<close>

theorem broadcastLog_delivers:
  assumes "distinct (clients s)"
  shows "\<exists>s'. broadcastLog m s = Inr s' \<and>
           (\<forall>c\<in>set (clients s). readyState (socks s c) = 1 \<and> \<not> send_throws (socks s c) \<longrightarrow>
              sent (socks s' c) = sent (socks s c) @ [LogFrame m]) \<and>
           (\<forall>c. \<not> (c \<in> set (clients s) \<and> readyState (socks s c) = 1 \<and> \<not> send_throws (socks s c)) \<longrightarrow>
              socks s' c = socks s c) \<and>
           clients s' = clients s \<and>
           stderr s' = stderr s @
              replicate (length (filter (\<lambda>c. readyState (socks s c) = 1 \<and> send_throws (socks s c))
                                   (clients s)))
                [''[BROADCAST] Error sending to client:'', ''Error: send failed'']"
  using broadcastLog_effect [OF assms, of m] by (auto simp: delivered_def send_fails_def)

theorem broadcastLog_delivers_witness:
  "distinct (clients demo_server) \<and>
   (\<exists>s'. broadcastLog ''found job'' demo_server = Inr s' \<and>
      sent (socks s' 0) = [LogFrame ''found job''] \<and> sent (socks s' 1) = [] \<and>
      sent (socks s' 2) = [] \<and> sent (socks s' 3) = [LogFrame ''found job''] \<and>
      stderr s' = [[''[BROADCAST] Error sending to client:'', ''Error: send failed'']])"
proof -
  have d: "distinct (clients demo_server)"
    by (simp add: demo_server_def initial_server_def)
  from broadcastLog_delivers [OF d, of "''found job''"] show ?thesis
    by (auto simp add: demo_server_def initial_server_def delivered_def send_fails_def
        open_socket_def unconnected_def)
qed

section \<open>The routes \<^verbatim>\<open>/start\<close> and \<^verbatim>\<open>/stop\<close>\<close>

lemma startsWith_take: "startsWith s p \<longleftrightarrow> take (length p) s = p"
  by (induction s p rule: startsWith.induct) auto

lemma link_test: "startsWith (trim l) ''https://hiring.amazon'' = link_ok l"
  unfolding link_ok_def by (rule startsWith_take)

lemma broadcastLog_fields:
  "broadcastLog m s = Inr s' \<Longrightarrow>
     running s' = running s \<and> launched s' = launched s \<and> clients s' = clients s \<and>
     wss_clients s' = wss_clients s \<and> closing s' = closing s \<and>
     LOCALAPPDATA s' = LOCALAPPDATA s"
  unfolding broadcastLog_def Let_def
  by (drule forEach_broadcast_fields) (simp add: originalConsoleLog_def split: if_splits)

lemma broadcastLog_Inr: "\<exists>s'. broadcastLog m s = Inr s'"
  by (simp add: broadcastLog_def Let_def forEach_broadcast_Inr)

lemma start_not_arrays:
  "links body = None \<or> positions body = None \<Longrightarrow>
     start body s = Inr (reply 400 ''Invalid input format'', s)"
  by (auto simp: start_def split: option.splits)

lemma start_running:
  "links body = Some ls \<Longrightarrow> positions body = Some ps \<Longrightarrow> running s \<Longrightarrow>
     start body s = Inr (reply 400 ''Script is already running'', s)"
  by (simp add: start_def isJobMonitorRunning_def)

lemma jobLinks_eq:
  "filter (\<lambda>link. startsWith (trim link) ''https://hiring.amazon'') ls = filter link_ok ls"
  by (simp add: link_test)

lemma targetPositions_eq:
  "filter (\<lambda>pos. length pos > 0) (map (\<lambda>pos. trim pos) ps) = map trim (filter position_ok ps)"
  by (simp add: filter_map o_def position_ok_def [abs_def])

lemma start_invalid:
  "links body = Some ls \<Longrightarrow> positions body = Some ps \<Longrightarrow> \<not> running s \<Longrightarrow>
   filter link_ok ls = [] \<or> filter position_ok ps = [] \<Longrightarrow>
     start body s = Inr (reply 400 ''Provide valid Amazon job links and target positions'', s)"
  unfolding start_def jobLinks_eq targetPositions_eq
  by (auto simp: isJobMonitorRunning_def)

lemma start_no_env:
  "links body = Some ls \<Longrightarrow> positions body = Some ps \<Longrightarrow> \<not> running s \<Longrightarrow>
   filter link_ok ls \<noteq> [] \<Longrightarrow> filter position_ok ps \<noteq> [] \<Longrightarrow> LOCALAPPDATA s = None \<Longrightarrow>
     start body s = Inl (TypeError ''The path argument must be of type string'')"
  unfolding start_def jobLinks_eq targetPositions_eq
  by (auto simp: isJobMonitorRunning_def)

lemma start_valid:
  assumes "links body = Some ls" "positions body = Some ps" "\<not> running s"
    "filter link_ok ls \<noteq> []" "filter position_ok ps \<noteq> []" "LOCALAPPDATA s = Some dir"
  shows "\<exists>cfg s2. start body s =
            Inr (\<lparr>res_status = 200, res_message = ''Script started'',
                  res_config = Some cfg, res_error = None\<rparr>,
                 s2\<lparr>running := True, launched := launched s @ [cfg]\<rparr>) \<and>
           AMAZON_JOBS_URL cfg = hd (filter link_ok ls) \<and>
           TARGET_JOBS cfg = map trim (filter position_ok ps) \<and>
           clients s2 = clients s \<and> wss_clients s2 = wss_clients s \<and> launched s2 = launched s"
proof -
  define cfg where "cfg = \<lparr>USER_DATA_DIR = path_join [dir, ''Google'', ''Chrome'', ''User Data''],
       CHROME_PROFILES = [''Profile 11''], REFRESH_INTERVAL = 30000,
       TARGET_JOBS = map trim (filter position_ok ps),
       AMAZON_JOBS_URL = filter link_ok ls ! 0\<rparr>"
  obtain s1 where s1: "broadcastLog (''Starting with job link: '' @ AMAZON_JOBS_URL cfg) s = Inr s1"
    using broadcastLog_Inr by blast
  obtain s2 where s2: "broadcastLog (''Looking for positions: '' @ join '', '' (TARGET_JOBS cfg)) s1 = Inr s2"
    using broadcastLog_Inr by blast
  have f: "launched s2 = launched s" "clients s2 = clients s" "wss_clients s2 = wss_clients s"
    using broadcastLog_fields [OF s1] broadcastLog_fields [OF s2] by simp_all
  have "start body s =
            Inr (\<lparr>res_status = 200, res_message = ''Script started'',
                  res_config = Some cfg, res_error = None\<rparr>,
                 s2\<lparr>running := True, launched := launched s @ [cfg]\<rparr>)"
    unfolding start_def jobLinks_eq targetPositions_eq
    using assms s1 s2 f
    by (simp add: isJobMonitorRunning_def Let_def startMonitoringJobs_def flip: cfg_def)
  moreover have "AMAZON_JOBS_URL cfg = hd (filter link_ok ls)"
    using assms(4) by (simp add: cfg_def hd_conv_nth)
  moreover have "TARGET_JOBS cfg = map trim (filter position_ok ps)"
    by (simp add: cfg_def)
  ultimately show ?thesis using f by blast
qed

text \<open>The four ways a start request can end, by what it finds.\<close>

lemma start_accepted:
  assumes "start body s = Inr (r, s')" "res_status r = 200"
  obtains ls ps cfg s2 where "links body = Some ls" "positions body = Some ps" "\<not> running s"
    "filter link_ok ls \<noteq> []" "filter position_ok ps \<noteq> []"
    "r = \<lparr>res_status = 200, res_message = ''Script started'', res_config = Some cfg, res_error = None\<rparr>"
    "s' = s2\<lparr>running := True, launched := launched s @ [cfg]\<rparr>"
    "AMAZON_JOBS_URL cfg = hd (filter link_ok ls)"
    "TARGET_JOBS cfg = map trim (filter position_ok ps)"
    "clients s2 = clients s" "wss_clients s2 = wss_clients s"
proof -
  from assms obtain ls ps where lp: "links body = Some ls" "positions body = Some ps"
    using start_not_arrays [of body s] by (cases "links body"; cases "positions body") (auto simp: reply_def)
  from assms lp have nr: "\<not> running s"
    using start_running [OF lp, of s] by (auto simp: reply_def)
  from assms lp nr have ok: "filter link_ok ls \<noteq> []" "filter position_ok ps \<noteq> []"
    using start_invalid [OF lp nr] by (auto simp: reply_def)
  from assms obtain dir where dir: "LOCALAPPDATA s = Some dir"
    using start_no_env [OF lp nr ok] by (cases "LOCALAPPDATA s") auto
  from start_valid [OF lp nr ok dir] assms(1) that [OF lp nr ok] show thesis
    by auto
qed

lemma ping_one_Inr: "\<exists>s1. ping_one c s = Inr s1"
  by (simp add: ping_one_def Let_def)

lemma forEach_ping_fields:
  "forEach ping_one cs s = Inr s' \<Longrightarrow>
     running s' = running s \<and> launched s' = launched s \<and> clients s' = clients s \<and>
     wss_clients s' = wss_clients s \<and> LOCALAPPDATA s' = LOCALAPPDATA s"
proof (induction cs arbitrary: s)
  case Nil
  then show ?case by simp
next
  case (Cons c cs)
  obtain s1 where s1: "ping_one c s = Inr s1"
    using ping_one_Inr by blast
  with Cons.prems have "forEach ping_one cs s1 = Inr s'" by simp
  from Cons.IH [OF this] s1 show ?case
    by (auto simp: ping_one_def Let_def ws_terminate_def ws_ping_def originalConsoleLog_def
        split: if_splits)
qed

lemma start_when_running: "running s \<Longrightarrow> start body s = Inr (r, s') \<Longrightarrow> s' = s"
  using start_not_arrays [of body s] start_running [of body _ _ s]
  by (cases "links body"; cases "positions body") auto

lemma server_step_running:
  assumes "server_step e s = Inr s'" "e \<noteq> StopRequest" "running s"
  shows "running s' \<and> launched s' = launched s"
proof (cases e)
  case (Connect ws)
  with assms show ?thesis
    by (auto simp: on_connection_def accept_socket_def Let_def originalConsoleLog_def
        split: if_splits sum.splits)
next
  case PingCycle
  with assms forEach_ping_fields [of "wss_clients s" s s'] show ?thesis
    by (simp add: pingInterval_def)
next
  case (ConsoleLog args)
  with assms broadcastLog_fields [of "join '' '' args" "originalConsoleLog args s" s'] show ?thesis
    by (auto simp: console_log_def Let_def originalConsoleLog_def split: if_splits)
next
  case (ConsoleError args)
  with assms broadcastLog_fields [of "''ERROR: '' @ join '' '' args" "originalConsoleError args s" s']
  show ?thesis
    by (auto simp: console_error_def Let_def originalConsoleError_def split: if_splits)
next
  case (Publish m)
  with assms broadcastLog_fields [of m s s'] show ?thesis by simp
next
  case (StartRequest body)
  with assms start_when_running [of s body] show ?thesis
    by (auto split: sum.splits prod.splits)
next
  case (Message ws m)
  with assms show ?thesis
    by (auto simp: on_message_def originalConsoleError_def ws_send_def
        split: if_splits client_message.splits)
qed (use assms in \<open>auto simp: on_pong_def on_error_def emit_close_def on_close_def Let_def
        originalConsoleLog_def originalConsoleError_def split: if_splits\<close>)

lemma run_server_running:
  "run_server es s = Inr s' \<Longrightarrow> StopRequest \<notin> set es \<Longrightarrow> running s \<Longrightarrow>
     running s' \<and> launched s' = launched s"
proof (induction es arbitrary: s)
  case Nil
  then show ?case by simp
next
  case (Cons e es)
  from Cons.prems obtain s1 where s1: "server_step e s = Inr s1" "run_server es s1 = Inr s'"
    by (auto split: sum.splits)
  from server_step_running [OF s1(1)] Cons.prems have "running s1" "launched s1 = launched s"
    by auto
  with Cons.IH [OF s1(2)] Cons.prems show ?case by auto
qed

text \<open>
  Claim C4, amended. After a start request that was accepted (status 200), and any
  events of the process other than a stop request, a start request whose links and
  positions are arrays is answered 400 with \<open>Script is already running\<close> and leaves
  the state as it is, so the worker has been launched once and not twice; a start
  request whose links or positions are not an array is answered 400 with
  \<open>Invalid input format\<close> and leaves the state as it is as well. A stop request
  while no worker is running is answered 400 with \<open>Script is not running\<close> and
  leaves the state as it is.
\<close>

theorem start_twice_and_idle_stop:
  assumes "start body1 s = Inr (r1, s1)" and "res_status r1 = 200"
    and "run_server es s1 = Inr s2" and "StopRequest \<notin> set es"
    and "links body2 = Some ls" and "positions body2 = Some ps"
  shows "start body2 s2 = Inr (reply 400 ''Script is already running'', s2) \<and>
         (\<forall>body3. links body3 = None \<or> positions body3 = None \<longrightarrow>
            start body3 s2 = Inr (reply 400 ''Invalid input format'', s2)) \<and>
         length (launched s2) = Suc (length (launched s)) \<and>
         (\<not> isJobMonitorRunning s0 \<longrightarrow>
            stop s0 = Inr (reply 400 ''Script is not running'', s0))"
proof -
  from assms(1,2) have "running s1" "length (launched s1) = Suc (length (launched s))"
    by (auto elim!: start_accepted)
  with run_server_running [OF assms(3,4)] have "running s2" "length (launched s2) = Suc (length (launched s))"
    by auto
  moreover have "\<forall>body3. links body3 = None \<or> positions body3 = None \<longrightarrow>
            start body3 s2 = Inr (reply 400 ''Invalid input format'', s2)"
    by (intro allI impI) (rule start_not_arrays)
  ultimately show ?thesis using start_running [OF assms(5,6)] by (simp add: stop_def)
qed

lemma valid_body_ok:
  "filter link_ok [''https://hiring.amazon.com/app#/jobSearch''] \<noteq> []"
  "filter position_ok [''Warehouse Associate''] \<noteq> []"
  by (simp_all add: link_ok_def position_ok_def trim_def is_whitespace_def)

theorem start_twice_and_idle_stop_witness:
  "\<exists>r1 s1. start valid_body (initial_server (Some ''C:'')) = Inr (r1, s1) \<and> res_status r1 = 200 \<and>
     run_server [StatusRequest, Pong 0] s1 = Inr s1 \<and> StopRequest \<notin> set [StatusRequest, Pong 0] \<and>
     start valid_body s1 = Inr (reply 400 ''Script is already running'', s1) \<and>
     length (launched s1) = 1 \<and>
     \<not> isJobMonitorRunning (initial_server (Some ''C:'')) \<and>
     stop (initial_server (Some ''C:'')) =
       Inr (reply 400 ''Script is not running'', initial_server (Some ''C:''))"
proof -
  obtain cfg s2 where st: "start valid_body (initial_server (Some ''C:'')) =
      Inr (\<lparr>res_status = 200, res_message = ''Script started'', res_config = Some cfg,
            res_error = None\<rparr>,
           s2\<lparr>running := True, launched := launched (initial_server (Some ''C:'')) @ [cfg]\<rparr>)"
    and w: "wss_clients s2 = wss_clients (initial_server (Some ''C:''))"
  proof -
    have "links valid_body = Some [''https://hiring.amazon.com/app#/jobSearch'']"
      "positions valid_body = Some [''Warehouse Associate'']"
      "\<not> running (initial_server (Some ''C:''))"
      "LOCALAPPDATA (initial_server (Some ''C:'')) = Some ''C:''"
      by (simp_all add: valid_body_def initial_server_def)
    from start_valid [OF this(1,2,3) valid_body_ok this(4)] that show thesis by blast
  qed
  define r1 where "r1 = \<lparr>res_status = 200, res_message = ''Script started'', res_config = Some cfg,
            res_error = None\<rparr>"
  define s1 where "s1 = s2\<lparr>running := True, launched := launched (initial_server (Some ''C:'')) @ [cfg]\<rparr>"
  have a: "start valid_body (initial_server (Some ''C:'')) = Inr (r1, s1)" "res_status r1 = 200"
    using st by (simp_all add: r1_def s1_def)
  have b: "run_server [StatusRequest, Pong 0] s1 = Inr s1"
    using w by (simp add: s1_def initial_server_def)
  have c: "StopRequest \<notin> set [StatusRequest, Pong 0]" by simp
  have d: "links valid_body = Some [''https://hiring.amazon.com/app#/jobSearch'']"
    "positions valid_body = Some [''Warehouse Associate'']"
    by (simp_all add: valid_body_def)
  have e: "\<not> isJobMonitorRunning (initial_server (Some ''C:''))"
    by (simp add: isJobMonitorRunning_def initial_server_def)
  from start_twice_and_idle_stop [OF a b c d, of "initial_server (Some ''C:'')"] a b c e
  show ?thesis by (auto simp: initial_server_def)
qed

lemma first_accepted:
  assumes "filter P xs \<noteq> []"
  shows "\<exists>before after. xs = before @ hd (filter P xs) # after \<and> (\<forall>x\<in>set before. \<not> P x) \<and>
           P (hd (filter P xs))"
proof -
  from assms obtain y ys where "filter P xs = y # ys" by (cases "filter P xs") auto
  then obtain us vs where "xs = us @ y # vs" "\<forall>u\<in>set us. \<not> P u" "P y"
    by (auto simp: filter_eq_Cons_iff)
  with \<open>filter P xs = y # ys\<close> show ?thesis by (intro exI [of _ us] exI [of _ vs]) simp
qed

lemma running_server_running: "running running_server"
proof -
  have "links valid_body = Some [''https://hiring.amazon.com/app#/jobSearch'']"
    "positions valid_body = Some [''Warehouse Associate'']"
    "\<not> running (initial_server (Some ''C:''))"
    "LOCALAPPDATA (initial_server (Some ''C:'')) = Some ''C:''"
    by (simp_all add: valid_body_def initial_server_def)
  from start_valid [OF this(1,2,3) valid_body_ok this(4)]
  obtain r s2 cfg where "start valid_body (initial_server (Some ''C:'')) =
      Inr (r, s2\<lparr>running := True, launched := launched (initial_server (Some ''C:'')) @ [cfg]\<rparr>)"
    by blast
  then show ?thesis by (simp add: running_server_def)
qed

text \<open>
  Claim C4 as stated fails, in two ways. A start request that is rejected leaves no
  worker, and the start request after it is accepted. And while a worker is running,
  a start request whose links are not an array is answered \<open>Invalid input format\<close>,
  not \<open>Script is already running\<close>.
\<close>

theorem start_twice_counterexample:
  "start empty_body (initial_server (Some ''C:'')) =
     Inr (reply 400 ''Provide valid Amazon job links and target positions'',
          initial_server (Some ''C:'')) \<and>
   res_status (fst (projr (start valid_body (initial_server (Some ''C:''))))) = 200 \<and>
   running_server = snd (projr (start valid_body (initial_server (Some ''C:'')))) \<and>
   isJobMonitorRunning running_server \<and>
   start (empty_body\<lparr>links := None\<rparr>) running_server =
     Inr (reply 400 ''Invalid input format'', running_server) \<and>
   res_message (reply 400 ''Invalid input format'') \<noteq> ''Script is already running''"
proof -
  have i: "\<not> running (initial_server (Some ''C:''))"
    "LOCALAPPDATA (initial_server (Some ''C:'')) = Some ''C:''"
    by (simp_all add: initial_server_def)
  have e: "links empty_body = Some []" "positions empty_body = Some []"
    by (simp_all add: empty_body_def)
  have 1: "start empty_body (initial_server (Some ''C:'')) =
     Inr (reply 400 ''Provide valid Amazon job links and target positions'',
          initial_server (Some ''C:''))"
    using start_invalid [OF e i(1)] by simp
  have v: "links valid_body = Some [''https://hiring.amazon.com/app#/jobSearch'']"
    "positions valid_body = Some [''Warehouse Associate'']"
    by (simp_all add: valid_body_def)
  from start_valid [OF v i(1) valid_body_ok i(2)]
  obtain cfg s2 where st: "start valid_body (initial_server (Some ''C:'')) =
      Inr (\<lparr>res_status = 200, res_message = ''Script started'', res_config = Some cfg,
            res_error = None\<rparr>,
           s2\<lparr>running := True, launched := launched (initial_server (Some ''C:'')) @ [cfg]\<rparr>)"
    by blast
  have 2: "res_status (fst (projr (start valid_body (initial_server (Some ''C:''))))) = 200"
    by (simp add: st)
  have 3: "running_server = snd (projr (start valid_body (initial_server (Some ''C:''))))"
    by (simp add: running_server_def st)
  have 4: "isJobMonitorRunning running_server"
    using running_server_running by (simp add: isJobMonitorRunning_def)
  have 5: "start (empty_body\<lparr>links := None\<rparr>) running_server =
     Inr (reply 400 ''Invalid input format'', running_server)"
    by (rule start_not_arrays) simp
  have 6: "res_message (reply 400 ''Invalid input format'') \<noteq> ''Script is already running''"
    by (simp add: reply_def)
  from 1 2 3 4 5 6 show ?thesis by blast
qed

text \<open>
  Claim C5 as stated fails: while a worker is running, a request whose links and
  positions are empty is answered \<open>Script is already running\<close>, not with the
  answer for invalid input.
\<close>

theorem start_precedence_counterexample:
  "links empty_body = Some [] \<and> positions empty_body = Some [] \<and>
   isJobMonitorRunning running_server \<and>
   start empty_body running_server =
     Inr (reply 400 ''Script is already running'', running_server) \<and>
   res_message (reply 400 ''Script is already running'') \<noteq>
     ''Provide valid Amazon job links and target positions''"
proof -
  have lp: "links empty_body = Some []" "positions empty_body = Some []"
    by (simp_all add: empty_body_def)
  note r = running_server_running
  from start_running [OF lp r] lp r show ?thesis
    by (simp add: isJobMonitorRunning_def reply_def)
qed

text \<open>
  Claim C5, amended. A start request whose links or positions are empty after the
  filtering is rejected with status 400 and leaves the state as it is: with the
  answer for invalid input when no worker is running, and with
  \<open>Script is already running\<close> when one is. Only the check that both fields are
  arrays comes before the check for a running worker.
\<close>

theorem start_rejects_invalid:
  assumes "links body = Some ls" and "positions body = Some ps"
    and "(\<forall>l\<in>set ls. \<not> link_ok l) \<or> (\<forall>p\<in>set ps. \<not> position_ok p)"
  shows "start body s =
           Inr (reply 400 (if isJobMonitorRunning s then ''Script is already running''
                           else ''Provide valid Amazon job links and target positions''), s) \<and>
         start (body\<lparr>links := None\<rparr>) s = Inr (reply 400 ''Invalid input format'', s) \<and>
         start (body\<lparr>positions := None\<rparr>) s = Inr (reply 400 ''Invalid input format'', s)"
proof -
  from assms(3) have e: "filter link_ok ls = [] \<or> filter position_ok ps = []"
    by (auto simp: filter_empty_conv)
  show ?thesis
    using start_running [OF assms(1,2), of s] start_invalid [OF assms(1,2) _ e, of s]
      start_not_arrays [of "body\<lparr>links := None\<rparr>" s]
      start_not_arrays [of "body\<lparr>positions := None\<rparr>" s]
    by (auto simp: isJobMonitorRunning_def)
qed

theorem start_rejects_invalid_witness:
  "links empty_body = Some [] \<and> positions empty_body = Some [] \<and>
   ((\<forall>l\<in>set []. \<not> link_ok l) \<or> (\<forall>p\<in>set []. \<not> position_ok p)) \<and>
   start empty_body (initial_server (Some ''C:'')) =
     Inr (reply 400 ''Provide valid Amazon job links and target positions'',
          initial_server (Some ''C:'')) \<and>
   start empty_body running_server =
     Inr (reply 400 ''Script is already running'', running_server)"
proof -
  have lp: "links empty_body = Some []" "positions empty_body = Some []"
    by (simp_all add: empty_body_def)
  have e: "(\<forall>l\<in>set []. \<not> link_ok l) \<or> (\<forall>p\<in>set []. \<not> position_ok p)" by simp
  from running_server_running have r: "isJobMonitorRunning running_server"
    by (simp add: isJobMonitorRunning_def)
  have i: "\<not> isJobMonitorRunning (initial_server (Some ''C:''))"
    by (simp add: isJobMonitorRunning_def initial_server_def)
  from start_rejects_invalid [OF lp e, of "initial_server (Some ''C:'')"]
    start_rejects_invalid [OF lp e, of running_server] lp r i
  show ?thesis by simp
qed

text \<open>
  Claim C6. For every accepted start request, the primary target of the configuration
  is the first link of the request that begins with \<open>https://hiring.amazon\<close> after
  trimming (every link before it does not), the target positions are the positions
  that are non-empty after trimming, all of them and in order, and that configuration
  is the one the worker is launched with.
\<close>

theorem start_config_from_accepted_input:
  assumes "start body s = Inr (r, s')" and "res_status r = 200"
  shows "\<exists>ls ps cfg. links body = Some ls \<and> positions body = Some ps \<and>
           res_config r = Some cfg \<and> launched s' = launched s @ [cfg] \<and>
           (\<exists>before after. ls = before @ AMAZON_JOBS_URL cfg # after \<and>
              (\<forall>l\<in>set before. \<not> link_ok l) \<and> link_ok (AMAZON_JOBS_URL cfg)) \<and>
           TARGET_JOBS cfg = map trim (filter position_ok ps) \<and>
           (\<exists>p\<in>set ps. position_ok p)"
  using assms
proof (rule start_accepted)
  fix ls ps cfg s2
  assume a: "links body = Some ls" "positions body = Some ps"
    "filter link_ok ls \<noteq> []" "filter position_ok ps \<noteq> []"
    "r = \<lparr>res_status = 200, res_message = ''Script started'', res_config = Some cfg, res_error = None\<rparr>"
    "s' = s2\<lparr>running := True, launched := launched s @ [cfg]\<rparr>"
    "AMAZON_JOBS_URL cfg = hd (filter link_ok ls)"
    "TARGET_JOBS cfg = map trim (filter position_ok ps)"
  from first_accepted [OF a(3)] a(7)
  have "\<exists>before after. ls = before @ AMAZON_JOBS_URL cfg # after \<and>
              (\<forall>l\<in>set before. \<not> link_ok l) \<and> link_ok (AMAZON_JOBS_URL cfg)" by simp
  moreover from a(4) have "\<exists>p\<in>set ps. position_ok p" by (auto simp: filter_empty_conv)
  ultimately show ?thesis using a by simp
qed

lemma start_at_initial:
  assumes "links body = Some ls" "positions body = Some ps"
    "filter link_ok ls \<noteq> []" "filter position_ok ps \<noteq> []"
  shows "\<exists>r s'. start body (initial_server (Some ''C:'')) = Inr (r, s') \<and> res_status r = 200"
proof -
  have "\<not> running (initial_server (Some ''C:''))"
    "LOCALAPPDATA (initial_server (Some ''C:'')) = Some ''C:''"
    by (simp_all add: initial_server_def)
  from start_valid [OF assms(1,2) this(1) assms(3,4) this(2)] show ?thesis by auto
qed

lemma link_ok_examples:
  "\<not> link_ok ''https://careers.other.com/x''" "link_ok ''https://hiring.amazon.com/y''"
  "\<not> link_ok ''https://example.com/jobs''" "link_ok ''  https://hiring.amazon.ca/x ''"
  by (simp_all add: link_ok_def trim_def is_whitespace_def)

lemma position_ok_examples:
  "position_ok ''Engineer''" "\<not> position_ok '' ''"
  "position_ok '' Picker ''" "\<not> position_ok ''   ''" "position_ok ''Packer''"
  by (simp_all add: position_ok_def trim_def is_whitespace_def)

lemma trim_examples:
  "trim ''Engineer'' = ''Engineer''" "trim '' Picker '' = ''Picker''" "trim ''Packer'' = ''Packer''"
  "trim ''  https://hiring.amazon.ca/x '' = ''https://hiring.amazon.ca/x''"
  by (simp_all add: trim_def is_whitespace_def)

theorem start_config_from_accepted_input_witness:
  "\<exists>r s' cfg. start mixed_body (initial_server (Some ''C:'')) = Inr (r, s') \<and> res_status r = 200 \<and>
     res_config r = Some cfg \<and> AMAZON_JOBS_URL cfg = ''https://hiring.amazon.com/y'' \<and>
     TARGET_JOBS cfg = [''Engineer''] \<and> launched s' = [cfg]"
proof -
  have lp: "links mixed_body = Some [''https://careers.other.com/x'', ''https://hiring.amazon.com/y'']"
    "positions mixed_body = Some [''Engineer'', '' '']"
    by (simp_all add: mixed_body_def)
  from start_at_initial [OF lp] obtain r s' where
    a: "start mixed_body (initial_server (Some ''C:'')) = Inr (r, s')" "res_status r = 200"
    by (auto simp: link_ok_examples position_ok_examples)
  from start_config_from_accepted_input [OF a] lp obtain cfg before after where
    c: "res_config r = Some cfg" "launched s' = launched (initial_server (Some ''C:'')) @ [cfg]"
      "[''https://careers.other.com/x'', ''https://hiring.amazon.com/y''] = before @ AMAZON_JOBS_URL cfg # after"
      "\<forall>l\<in>set before. \<not> link_ok l" "link_ok (AMAZON_JOBS_URL cfg)"
      "TARGET_JOBS cfg = map trim (filter position_ok [''Engineer'', '' ''])"
    by auto
  have "AMAZON_JOBS_URL cfg = ''https://hiring.amazon.com/y''"
  proof (cases before)
    case Nil
    with c(3) have "AMAZON_JOBS_URL cfg = ''https://careers.other.com/x''" by simp
    with c(5) link_ok_examples(1) show ?thesis by simp
  next
    case (Cons x rest)
    with c(3) have "[''https://hiring.amazon.com/y''] = rest @ AMAZON_JOBS_URL cfg # after" by simp
    then show ?thesis by (cases rest) auto
  qed
  with a c(1,2,6) show ?thesis
    by (auto simp: position_ok_examples trim_examples initial_server_def)
qed

text \<open>
  Claim C10. For every accepted start request, the primary target is the element of
  the request's links at the least index whose trimmed form has the prefix, exactly
  as it was supplied, while every stored position is the trimmed form of an input
  and is its own trimmed form. The witness is a link with surrounding white space:
  it is accepted and stored with the white space.
\<close>

theorem start_config_link_as_supplied:
  assumes "start body s = Inr (r, s')" and "res_status r = 200"
  shows "\<exists>ls ps cfg k. links body = Some ls \<and> positions body = Some ps \<and>
           res_config r = Some cfg \<and>
           k < length ls \<and> AMAZON_JOBS_URL cfg = ls ! k \<and> link_ok (ls ! k) \<and>
           (\<forall>j<k. \<not> link_ok (ls ! j)) \<and>
           TARGET_JOBS cfg = map trim (filter position_ok ps) \<and>
           (\<forall>p\<in>set (TARGET_JOBS cfg). trim p = p \<and> p \<noteq> [])"
  using assms
proof (rule start_accepted)
  fix ls ps cfg s2
  assume a: "links body = Some ls" "positions body = Some ps"
    "filter link_ok ls \<noteq> []"
    "r = \<lparr>res_status = 200, res_message = ''Script started'', res_config = Some cfg, res_error = None\<rparr>"
    "AMAZON_JOBS_URL cfg = hd (filter link_ok ls)"
    "TARGET_JOBS cfg = map trim (filter position_ok ps)"
  from first_accepted [OF a(3)] a(5) obtain before after where
    b: "ls = before @ AMAZON_JOBS_URL cfg # after" "\<forall>l\<in>set before. \<not> link_ok l"
       "link_ok (AMAZON_JOBS_URL cfg)" by auto
  define k where "k = length before"
  from b have "k < length ls" "AMAZON_JOBS_URL cfg = ls ! k" "link_ok (ls ! k)"
    "\<forall>j<k. \<not> link_ok (ls ! j)"
    by (auto simp: k_def nth_append)
  moreover have "\<forall>p\<in>set (TARGET_JOBS cfg). trim p = p \<and> p \<noteq> []"
    by (auto simp: a(6) trim_idem position_ok_def)
  ultimately show ?thesis using a by auto
qed

theorem start_config_link_as_supplied_witness:
  "\<exists>r s' cfg. start padded_body (initial_server (Some ''C:'')) = Inr (r, s') \<and> res_status r = 200 \<and>
     res_config r = Some cfg \<and> AMAZON_JOBS_URL cfg = ''  https://hiring.amazon.ca/x '' \<and>
     trim (AMAZON_JOBS_URL cfg) = ''https://hiring.amazon.ca/x'' \<and>
     TARGET_JOBS cfg = [''Picker'', ''Packer'']"
proof -
  define ls where "ls = [''https://example.com/jobs'', ''  https://hiring.amazon.ca/x '',
                    ''https://hiring.amazon.com/y'']"
  have lp: "links padded_body = Some ls"
    "positions padded_body = Some ['' Picker '', ''   '', ''Packer'']"
    by (simp_all add: padded_body_def ls_def)
  have ok: "filter link_ok ls \<noteq> []" "filter position_ok ['' Picker '', ''   '', ''Packer''] \<noteq> []"
    by (simp_all add: ls_def link_ok_examples position_ok_examples)
  from start_at_initial [OF lp ok] obtain r s' where
    a: "start padded_body (initial_server (Some ''C:'')) = Inr (r, s')" "res_status r = 200"
    by auto
  from start_config_link_as_supplied [OF a] lp obtain cfg k where
    c: "res_config r = Some cfg" "k < length ls" "AMAZON_JOBS_URL cfg = ls ! k" "link_ok (ls ! k)"
      "\<forall>j<k. \<not> link_ok (ls ! j)"
      "TARGET_JOBS cfg = map trim (filter position_ok ['' Picker '', ''   '', ''Packer''])"
    by auto
  have l: "\<not> link_ok (ls ! 0)" "link_ok (ls ! 1)" by (simp_all add: ls_def link_ok_examples)
  from c(2) have "k = 0 \<or> k = 1 \<or> k = 2" by (auto simp: ls_def)
  with c(4,5) l have "k = 1" by auto
  with c(3) have "AMAZON_JOBS_URL cfg = ''  https://hiring.amazon.ca/x ''" by (simp add: ls_def)
  with a c(1,6) show ?thesis
    by (auto simp: position_ok_examples trim_examples)
qed

section \<open>The liveness check\<close>

lemma ping_one_effect:
  "ping_one c s = Inr s' \<Longrightarrow>
     socks s' = (socks s)(c := checked (socks s c)) \<and>
     set (closing s') =
       set (closing s) \<union> (if \<not> isAlive (socks s c) \<and> readyState (socks s c) \<noteq> 3 then {c} else {})"
  by (auto simp: ping_one_def Let_def ws_terminate_def ws_ping_def originalConsoleLog_def
        checked_def set_add_def fun_eq_iff split: if_splits)

lemma forEach_ping_effect:
  "distinct cs \<Longrightarrow> forEach ping_one cs s = Inr s' \<Longrightarrow>
     socks s' i = (if i \<in> set cs then checked (socks s i) else socks s i) \<and>
     (i \<in> set (closing s') \<longleftrightarrow>
        i \<in> set (closing s) \<or>
        (i \<in> set cs \<and> \<not> isAlive (socks s i) \<and> readyState (socks s i) \<noteq> 3))"
proof (induction cs arbitrary: s)
  case Nil
  then show ?case by simp
next
  case (Cons c cs)
  obtain s1 where s1: "ping_one c s = Inr s1"
    using ping_one_Inr by blast
  with Cons.prems have rest: "forEach ping_one cs s1 = Inr s'" by simp
  from Cons.prems have d: "distinct cs" and c: "c \<notin> set cs" by auto
  from Cons.IH [OF d rest] ping_one_effect [OF s1] c show ?case
    by (auto split: if_splits)
qed

lemma pingInterval_Inr: "\<exists>s'. pingInterval s = Inr s'"
proof -
  have "\<exists>s'. forEach ping_one cs s = Inr s'" for cs
  proof (induction cs arbitrary: s)
    case Nil
    show ?case by simp
  next
    case (Cons c cs)
    obtain s1 where "ping_one c s = Inr s1" using ping_one_Inr by blast
    with Cons show ?case by simp
  qed
  then show ?thesis by (simp add: pingInterval_def)
qed

lemma pingInterval_effect:
  assumes "distinct (wss_clients s)" "pingInterval s = Inr s'"
  shows "socks s' i = (if i \<in> set (wss_clients s) then checked (socks s i) else socks s i)"
    "i \<in> set (closing s') \<longleftrightarrow>
        i \<in> set (closing s) \<or>
        (i \<in> set (wss_clients s) \<and> \<not> isAlive (socks s i) \<and> readyState (socks s i) \<noteq> 3)"
    "clients s' = clients s" "wss_clients s' = wss_clients s"
  using forEach_ping_effect [OF assms(1), of s s' i] forEach_ping_fields [of "wss_clients s" s s'] assms(2)
  by (simp_all add: pingInterval_def)

lemma broadcastLog_socket:
  assumes "broadcastLog m s = Inr s'"
  shows "readyState (socks s' i) = readyState (socks s i) \<and> isAlive (socks s' i) = isAlive (socks s i) \<and>
         pings (socks s' i) = pings (socks s i)"
proof -
  have "forEach (broadcast_to m) cs s0 = Inr s' \<Longrightarrow>
     readyState (socks s' i) = readyState (socks s0 i) \<and> isAlive (socks s' i) = isAlive (socks s0 i) \<and>
         pings (socks s' i) = pings (socks s0 i)" for cs s0
  proof (induction cs arbitrary: s0)
    case Nil
    then show ?case by simp
  next
    case (Cons c cs)
    from forEach_broadcast_Inr [of m "[c]" s0] obtain s1 where s1: "broadcast_to m c s0 = Inr s1"
      by (auto split: sum.splits)
    with Cons.prems have "forEach (broadcast_to m) cs s1 = Inr s'" by simp
    from Cons.IH [OF this] broadcast_to_socks [OF s1] show ?case by simp
  qed
  from this [of "clients (if \<not> includes_str m ''[BROADCAST]'' then originalConsoleLog [m] s else s)"
      "if \<not> includes_str m ''[BROADCAST]'' then originalConsoleLog [m] s else s"] assms
  show ?thesis by (simp add: broadcastLog_def Let_def originalConsoleLog_def split: if_splits)
qed

lemma broadcastLog_contact:
  "broadcastLog m s = Inr s' \<Longrightarrow>
     contact i s' = contact i s \<and> isAlive (socks s' i) = isAlive (socks s i) \<and>
     wss_clients s' = wss_clients s"
  using broadcastLog_socket [of m s s' i] broadcastLog_fields [of m s s']
  by (simp add: contact_def)

lemma start_state:
  assumes "start body s = Inr (r, s')"
  shows "s' = s \<or>
         (\<exists>m1 m2 s1 s2 cfg. broadcastLog m1 s = Inr s1 \<and> broadcastLog m2 s1 = Inr s2 \<and>
            s' = s2\<lparr>running := True, launched := launched s2 @ [cfg]\<rparr>)"
  using assms unfolding start_def Let_def startMonitoringJobs_def
  by (simp split: option.splits if_splits sum.splits) blast

lemma start_contact:
  assumes "start body s = Inr (r, s')"
  shows "contact i s' = contact i s \<and> isAlive (socks s' i) = isAlive (socks s i) \<and>
         wss_clients s' = wss_clients s"
  using start_state [OF assms]
proof
  assume "s' = s"
  then show ?thesis by simp
next
  assume "\<exists>m1 m2 s1 s2 cfg. broadcastLog m1 s = Inr s1 \<and> broadcastLog m2 s1 = Inr s2 \<and>
            s' = s2\<lparr>running := True, launched := launched s2 @ [cfg]\<rparr>"
  then obtain m1 m2 s1 s2 cfg where b: "broadcastLog m1 s = Inr s1" "broadcastLog m2 s1 = Inr s2"
    and s': "s' = s2\<lparr>running := True, launched := launched s2 @ [cfg]\<rparr>" by blast
  from broadcastLog_contact [OF b(1), of i] broadcastLog_contact [OF b(2), of i] s'
  show ?thesis by (simp add: contact_def)
qed

lemma stop_contact:
  assumes "stop s = Inr (r, s')"
  shows "contact i s' = contact i s \<and> isAlive (socks s' i) = isAlive (socks s i) \<and>
         wss_clients s' = wss_clients s"
proof (cases "isJobMonitorRunning s")
  case False
  with assms show ?thesis by (simp add: stop_def)
next
  case True
  with assms have "broadcastLog ''Script stopped'' (stopMonitoringJobs s) = Inr s'"
    by (auto simp: stop_def split: sum.splits)
  from broadcastLog_contact [OF this, of i] show ?thesis
    by (simp add: contact_def stopMonitoringJobs_def)
qed

lemma distinct_set_add: "distinct cs \<Longrightarrow> distinct (set_add c cs)"
  by (simp add: set_add_def)

lemma server_step_between:
  assumes "server_step e s = Inr s'" "between_checks i e" "i \<in> set (wss_clients s)"
    "distinct (wss_clients s)"
  shows "contact i s' = contact i s \<and>
         isAlive (socks s' i) = (isAlive (socks s i) \<or> e = Pong i) \<and>
         i \<in> set (wss_clients s') \<and> distinct (wss_clients s')"
proof (cases e)
  case (Connect ws)
  with assms show ?thesis
    by (auto simp: on_connection_def accept_socket_def Let_def originalConsoleLog_def
        contact_def set_add_def ws_send_def split: if_splits sum.splits)
next
  case (Pong ws)
  with assms show ?thesis by (auto simp: on_pong_def contact_def split: if_splits)
next
  case (Message ws m)
  with assms show ?thesis
    by (auto simp: on_message_def originalConsoleError_def ws_send_def contact_def
        split: if_splits client_message.splits)
next
  case (SocketFailure ws err)
  with assms show ?thesis
    by (auto simp: on_error_def originalConsoleError_def contact_def split: if_splits)
next
  case (Close ws code reason)
  with assms show ?thesis
    by (auto simp: emit_close_def on_close_def Let_def originalConsoleLog_def contact_def
        set_delete_def between_checks_def distinct_removeAll split: if_splits)
next
  case (TransportFault ws)
  with assms show ?thesis by (auto simp: contact_def split: if_splits)
next
  case PingCycle
  with assms show ?thesis by (simp add: between_checks_def)
next
  case (ConsoleLog args)
  with assms have "console_log args s = Inr s'" by simp
  then have "s' = originalConsoleLog args s \<or>
      broadcastLog (join '' '' args) (originalConsoleLog args s) = Inr s'"
    by (auto simp: console_log_def Let_def split: if_splits)
  with broadcastLog_contact [of "join '' '' args" "originalConsoleLog args s" s' i] assms ConsoleLog
  show ?thesis by (auto simp: contact_def originalConsoleLog_def)
next
  case (ConsoleError args)
  with assms have "console_error args s = Inr s'" by simp
  then have "s' = originalConsoleError args s \<or>
      broadcastLog (''ERROR: '' @ join '' '' args) (originalConsoleError args s) = Inr s'"
    by (auto simp: console_error_def Let_def split: if_splits)
  with broadcastLog_contact [of "''ERROR: '' @ join '' '' args" "originalConsoleError args s" s' i]
    assms ConsoleError
  show ?thesis by (auto simp: contact_def originalConsoleError_def)
next
  case (Publish m)
  with assms broadcastLog_contact [of m s s' i] show ?thesis by auto
next
  case (StartRequest body)
  with assms obtain r where "start body s = Inr (r, s')" by (auto split: sum.splits prod.splits)
  from start_contact [OF this, of i] assms StartRequest show ?thesis by auto
next
  case StopRequest
  with assms obtain r where "stop s = Inr (r, s')" by (auto split: sum.splits prod.splits)
  from stop_contact [OF this, of i] assms StopRequest show ?thesis by auto
next
  case StatusRequest
  with assms show ?thesis by auto
qed

lemma run_server_between:
  "run_server es s = Inr s' \<Longrightarrow> \<forall>e\<in>set es. between_checks i e \<Longrightarrow>
   i \<in> set (wss_clients s) \<Longrightarrow> distinct (wss_clients s) \<Longrightarrow>
     contact i s' = contact i s \<and>
     isAlive (socks s' i) = (isAlive (socks s i) \<or> Pong i \<in> set es) \<and>
     i \<in> set (wss_clients s') \<and> distinct (wss_clients s')"
proof (induction es arbitrary: s)
  case Nil
  then show ?case by simp
next
  case (Cons e es)
  from Cons.prems obtain s1 where s1: "server_step e s = Inr s1" "run_server es s1 = Inr s'"
    by (auto split: sum.splits)
  from Cons.prems have b: "between_checks i e" "\<forall>e\<in>set es. between_checks i e" by auto
  from server_step_between [OF s1(1) b(1) Cons.prems(3,4)]
  have 1: "contact i s1 = contact i s" "isAlive (socks s1 i) = (isAlive (socks s i) \<or> e = Pong i)"
    "i \<in> set (wss_clients s1)" "distinct (wss_clients s1)" by auto
  from Cons.IH [OF s1(2) b(2) 1(3,4)] 1 show ?case by auto
qed

lemma two_subscribers_fields:
  "wss_clients two_subscribers = [0, 1]" "clients two_subscribers = [0, 1]"
  "closing two_subscribers = []"
  "readyState (socks two_subscribers 0) = 1" "isAlive (socks two_subscribers 0)"
  "readyState (socks two_subscribers 1) = 1" "isAlive (socks two_subscribers 1)"
  "pings (socks two_subscribers 0) = 0" "pings (socks two_subscribers 1) = 0"
  by (simp_all add: two_subscribers_def initial_server_def on_connection_def accept_socket_def
      Let_def originalConsoleLog_def set_add_def ws_send_def unconnected_def)

lemma emit_close_removes:
  "i \<notin> set (clients (emit_close i code reason s)) \<and>
   i \<notin> set (wss_clients (emit_close i code reason s))"
  by (simp add: emit_close_def on_close_def Let_def originalConsoleLog_def set_delete_def)

text \<open>
  Claim C7. Take a subscriber of the live set that a liveness check pings, and any
  events up to the next check that are not its close. If no pong of that subscriber
  is among them, the next check sends it no ping and terminates it, and the close
  event that results takes it out of the subscriber set and out of \<^verbatim>\<open>wss.clients\<close>. If
  a pong is among them, the next check pings it again and does not terminate it: it
  stays open and in the subscriber set.
\<close>

theorem liveness_check:
  assumes "distinct (wss_clients s)" and "i \<in> set (wss_clients s)" and "i \<in> set (clients s)"
    and "i \<notin> set (closing s)"
    and "readyState (socks s i) = 1" and "isAlive (socks s i)"
    and "pingInterval s = Inr s1" and "run_server es s1 = Inr s2"
    and "\<forall>e\<in>set es. between_checks i e"
  shows "pings (socks s1 i) = Suc (pings (socks s i)) \<and>
     (\<exists>s3. pingInterval s2 = Inr s3 \<and>
        (if Pong i \<in> set es
         then pings (socks s3 i) = Suc (Suc (pings (socks s i))) \<and>
              readyState (socks s3 i) = 1 \<and> i \<notin> set (closing s3) \<and> i \<in> set (clients s3)
         else pings (socks s3 i) = Suc (pings (socks s i)) \<and>
              readyState (socks s3 i) = 2 \<and> i \<in> set (closing s3) \<and>
              i \<notin> set (clients (emit_close i 1006 [] s3)) \<and>
              i \<notin> set (wss_clients (emit_close i 1006 [] s3))))"
proof -
  note c1 = pingInterval_effect(1,2) [OF assms(1,7), of i] pingInterval_effect(3,4) [OF assms(1,7)]
  from c1 assms have s1: "readyState (socks s1 i) = 1" "\<not> isAlive (socks s1 i)"
    "pings (socks s1 i) = Suc (pings (socks s i))" "i \<in> set (clients s1)"
    "i \<notin> set (closing s1)" "i \<in> set (wss_clients s1)" "distinct (wss_clients s1)"
    by (simp_all add: checked_def)
  from run_server_between [OF assms(8,9) s1(6,7)] s1
  have s2: "readyState (socks s2 i) = 1" "isAlive (socks s2 i) = (Pong i \<in> set es)"
    "pings (socks s2 i) = Suc (pings (socks s i))" "i \<in> set (clients s2)"
    "i \<notin> set (closing s2)" "i \<in> set (wss_clients s2)" "distinct (wss_clients s2)"
    by (simp_all add: contact_def)
  obtain s3 where s3: "pingInterval s2 = Inr s3" using pingInterval_Inr by blast
  note c2 = pingInterval_effect(1,2) [OF s2(7) s3, of i] pingInterval_effect(3,4) [OF s2(7) s3]
  have "if Pong i \<in> set es
         then pings (socks s3 i) = Suc (Suc (pings (socks s i))) \<and>
              readyState (socks s3 i) = 1 \<and> i \<notin> set (closing s3) \<and> i \<in> set (clients s3)
         else pings (socks s3 i) = Suc (pings (socks s i)) \<and>
              readyState (socks s3 i) = 2 \<and> i \<in> set (closing s3) \<and>
              i \<notin> set (clients (emit_close i 1006 [] s3)) \<and>
              i \<notin> set (wss_clients (emit_close i 1006 [] s3))"
    using c2 s2 emit_close_removes [of i 1006 "[]" s3] by (simp add: checked_def)
  with s3 s1(3) show ?thesis by blast
qed

theorem liveness_check_witness:
  "\<exists>s1 s2 s3. pingInterval two_subscribers = Inr s1 \<and>
     run_server [Pong 1, Publish ''tick''] s1 = Inr s2 \<and> pingInterval s2 = Inr s3 \<and>
     readyState (socks s3 0) = 2 \<and> pings (socks s3 0) = 1 \<and> 0 \<in> set (closing s3) \<and>
     0 \<notin> set (clients (emit_close 0 1006 [] s3)) \<and>
     readyState (socks s3 1) = 1 \<and> pings (socks s3 1) = 2 \<and> 1 \<notin> set (closing s3) \<and>
     1 \<in> set (clients s3)"
proof -
  note f = two_subscribers_fields
  obtain s1 where s1: "pingInterval two_subscribers = Inr s1" using pingInterval_Inr by blast
  obtain s2 where p: "broadcastLog ''tick'' (if 1 \<in> set (wss_clients s1) then on_pong 1 s1 else s1) = Inr s2"
    using broadcastLog_Inr by blast
  then have s2: "run_server [Pong 1, Publish ''tick''] s1 = Inr s2"
    by (auto split: if_splits)
  have d: "distinct (wss_clients two_subscribers)" by (simp add: f)
  have b0: "\<forall>e\<in>set [Pong 1, Publish ''tick'']. between_checks 0 e"
    and b1: "\<forall>e\<in>set [Pong 1, Publish ''tick'']. between_checks 1 e"
    by (simp_all add: between_checks_def)
  have m: "(0::nat) \<in> set (wss_clients two_subscribers)" "(0::nat) \<in> set (clients two_subscribers)"
    "(0::nat) \<notin> set (closing two_subscribers)"
    "(1::nat) \<in> set (wss_clients two_subscribers)" "(1::nat) \<in> set (clients two_subscribers)"
    "(1::nat) \<notin> set (closing two_subscribers)"
    by (simp_all add: f)
  have p1: "pings (socks two_subscribers (Suc 0)) = 0" using f(9) by simp
  from liveness_check [OF d m(1,2,3) f(4,5) s1 s2 b0]
    liveness_check [OF d m(4,5,6) f(6,7) s1 s2 b1] s1 s2
  show ?thesis by (auto simp: f p1)
qed

section \<open>The interception of the console\<close>

lemma console_log_marked:
  "includes_str (join '' '' args) ''[BROADCAST]'' \<Longrightarrow>
     console_log args s = Inr (originalConsoleLog args s)"
  by (simp add: console_log_def Let_def)

lemma console_error_marked:
  "includes_str (join '' '' args) ''[BROADCAST]'' \<Longrightarrow>
     console_error args s = Inr (originalConsoleError args s)"
  by (simp add: console_error_def Let_def)

lemma console_log_unmarked:
  "\<not> includes_str (join '' '' args) ''[BROADCAST]'' \<Longrightarrow>
     console_log args s = broadcastLog (join '' '' args) (originalConsoleLog args s)"
  by (simp add: console_log_def Let_def)

lemma console_error_unmarked:
  "\<not> includes_str (join '' '' args) ''[BROADCAST]'' \<Longrightarrow>
     console_error args s = broadcastLog (''ERROR: '' @ join '' '' args) (originalConsoleError args s)"
  by (simp add: console_error_def Let_def)

text \<open>
  Claim C8. For every list of arguments given to the overridden \<^verbatim>\<open>console.log\<close> or
  \<^verbatim>\<open>console.error\<close>: when the joined text contains \<open>[BROADCAST]\<close>, nothing is sent to
  any subscriber; when it does not, every subscriber that the fan-out reaches gets
  exactly one new frame, the one with the joined text (prefixed with \<open>ERROR: \<close> for
  \<^verbatim>\<open>console.error\<close>), and no other socket changes. Either way the call returns
  normally.
\<close>

theorem console_interception:
  assumes "distinct (clients s)"
  shows "((\<exists>a b. join '' '' args = a @ ''[BROADCAST]'' @ b) \<longrightarrow>
            (\<exists>s'. console_log args s = Inr s' \<and> socks s' = socks s) \<and>
            (\<exists>s'. console_error args s = Inr s' \<and> socks s' = socks s)) \<and>
         (\<not> (\<exists>a b. join '' '' args = a @ ''[BROADCAST]'' @ b) \<longrightarrow>
            (\<exists>s'. console_log args s = Inr s' \<and>
               (\<forall>c. if reached s c
                    then sent (socks s' c) = sent (socks s c) @ [LogFrame (join '' '' args)]
                    else socks s' c = socks s c)) \<and>
            (\<exists>s'. console_error args s = Inr s' \<and>
               (\<forall>c. if reached s c
                    then sent (socks s' c) =
                           sent (socks s c) @ [LogFrame (''ERROR: '' @ join '' '' args)]
                    else socks s' c = socks s c)))"
proof (intro conjI impI)
  assume "\<exists>a b. join '' '' args = a @ ''[BROADCAST]'' @ b"
  then have m: "includes_str (join '' '' args) ''[BROADCAST]''" by (simp add: includes_str_iff)
  show "\<exists>s'. console_log args s = Inr s' \<and> socks s' = socks s"
    using console_log_marked [OF m] by (simp add: originalConsoleLog_def)
  show "\<exists>s'. console_error args s = Inr s' \<and> socks s' = socks s"
    using console_error_marked [OF m] by (simp add: originalConsoleError_def)
next
  assume "\<not> (\<exists>a b. join '' '' args = a @ ''[BROADCAST]'' @ b)"
  then have m: "\<not> includes_str (join '' '' args) ''[BROADCAST]''" by (simp add: includes_str_iff)
  have d1: "distinct (clients (originalConsoleLog args s))"
    and d2: "distinct (clients (originalConsoleError args s))"
    using assms by (simp_all add: originalConsoleLog_def originalConsoleError_def)
  show "\<exists>s'. console_log args s = Inr s' \<and>
               (\<forall>c. if reached s c
                    then sent (socks s' c) = sent (socks s c) @ [LogFrame (join '' '' args)]
                    else socks s' c = socks s c)"
    using broadcastLog_effect [OF d1, of "join '' '' args"] console_log_unmarked [OF m, of s]
    by (auto simp: originalConsoleLog_def delivered_def reached_def)
  show "\<exists>s'. console_error args s = Inr s' \<and>
               (\<forall>c. if reached s c
                    then sent (socks s' c) =
                           sent (socks s c) @ [LogFrame (''ERROR: '' @ join '' '' args)]
                    else socks s' c = socks s c)"
    using broadcastLog_effect [OF d2, of "''ERROR: '' @ join '' '' args"]
      console_error_unmarked [OF m, of s]
    by (auto simp: originalConsoleError_def delivered_def reached_def)
qed

lemma marker_examples:
  "includes_str (join '' '' [''[BROADCAST] New WebSocket'', ''client connected'']) ''[BROADCAST]''"
  "\<not> includes_str (join '' '' [''Monitor jobs error:'', ''timeout'']) ''[BROADCAST]''"
  by simp_all

theorem console_interception_witness:
  "distinct (clients demo_server) \<and>
   (\<exists>a b. join '' '' [''[BROADCAST] New WebSocket'', ''client connected''] = a @ ''[BROADCAST]'' @ b) \<and>
   (\<exists>s'. console_log [''[BROADCAST] New WebSocket'', ''client connected''] demo_server = Inr s' \<and>
      socks s' = socks demo_server) \<and>
   \<not> (\<exists>a b. join '' '' [''Monitor jobs error:'', ''timeout''] = a @ ''[BROADCAST]'' @ b) \<and>
   (\<exists>s'. console_error [''Monitor jobs error:'', ''timeout''] demo_server = Inr s' \<and>
      sent (socks s' 0) = [LogFrame ''ERROR: Monitor jobs error: timeout''] \<and>
      sent (socks s' 1) = [] \<and> sent (socks s' 2) = [] \<and>
      sent (socks s' 3) = [LogFrame ''ERROR: Monitor jobs error: timeout''])"
proof -
  have d: "distinct (clients demo_server)"
    by (simp add: demo_server_def initial_server_def)
  have y: "\<exists>a b. join '' '' [''[BROADCAST] New WebSocket'', ''client connected''] = a @ ''[BROADCAST]'' @ b"
    using marker_examples(1) unfolding includes_str_iff .
  have n: "\<not> (\<exists>a b. join '' '' [''Monitor jobs error:'', ''timeout''] = a @ ''[BROADCAST]'' @ b)"
    using marker_examples(2) unfolding includes_str_iff .
  have r: "reached demo_server 0" "\<not> reached demo_server 1" "\<not> reached demo_server 2"
    "reached demo_server 3"
    by (simp_all add: reached_def demo_server_def initial_server_def open_socket_def)
  have e: "sent (socks demo_server 0) = []" "sent (socks demo_server 1) = []"
    "sent (socks demo_server 2) = []" "sent (socks demo_server 3) = []"
    by (simp_all add: demo_server_def initial_server_def open_socket_def)
  from console_interception [OF d, of "[''[BROADCAST] New WebSocket'', ''client connected'']"] y
  have 1: "\<exists>s'. console_log [''[BROADCAST] New WebSocket'', ''client connected''] demo_server = Inr s' \<and>
      socks s' = socks demo_server" by blast
  from console_interception [OF d, of "[''Monitor jobs error:'', ''timeout'']"] n
  obtain s' where s': "console_error [''Monitor jobs error:'', ''timeout''] demo_server = Inr s'"
    "\<forall>c. if reached demo_server c
                    then sent (socks s' c) =
                           sent (socks demo_server c) @ [LogFrame (''ERROR: '' @ join '' '' [''Monitor jobs error:'', ''timeout''])]
                    else socks s' c = socks demo_server c" by blast
  from s'(2) [rule_format, of 0] s'(2) [rule_format, of 1] s'(2) [rule_format, of 2]
    s'(2) [rule_format, of 3] r e
  have "sent (socks s' 0) = [LogFrame ''ERROR: Monitor jobs error: timeout'']"
      "sent (socks s' 1) = []" "sent (socks s' 2) = []"
      "sent (socks s' 3) = [LogFrame ''ERROR: Monitor jobs error: timeout'']"
    by simp_all
  with d y n 1 s'(1) show ?thesis by blast
qed

section \<open>The client session\<close>

lemma resolve_heartbeatInterval:
  "resolve ''heartbeatInterval'' onclose_scope =
     Inl (ReferenceError ''heartbeatInterval is not defined'')"
  by (simp add: resolve_def onclose_scope_def)

lemma onclose_throws:
  "onclose code s =
     (console_write (''WebSocket disconnected (code: '' @ show_nat code @ ''). Retrying...'') s)
       \<lparr>uncaught := uncaught s @ [ReferenceError ''heartbeatInterval is not defined'']\<rparr>"
  by (simp add: onclose_def resolve_heartbeatInterval console_write_def)

lemma connectWebSocket_ceiling:
  assumes "MAX_RETRIES \<le> retryCount s"
  shows "wsockets (connectWebSocket s) = wsockets s"
    "ws_current (connectWebSocket s) = ws_current s"
    "retryCount (connectWebSocket s) = retryCount s"
    "set (timeouts (connectWebSocket s)) \<subseteq> set (timeouts s)"
    "blocked (connectWebSocket s) = blocked s"
    "isConnected (connectWebSocket s) = False"
  using assms
  by (auto simp: connectWebSocket_def Let_def clearTimeout_def console_write_def
      split: option.splits)

lemma step_gave_up:
  assumes "gave_up s" "e \<noteq> ManualReconnect"
  shows "gave_up (step e s) \<and>
         length (wsockets (step e s)) = length (wsockets s) \<and>
         set (timeouts (step e s)) \<subseteq> set (timeouts s)"
proof (cases e)
  case (TimeoutFired t)
  have "MAX_RETRIES \<le> retryCount (clearTimeout t s)" "wsockets (clearTimeout t s) = wsockets s"
    "set (timeouts (clearTimeout t s)) \<subseteq> set (timeouts s)"
    using assms by (auto simp: gave_up_def clearTimeout_def)
  with connectWebSocket_ceiling [of "clearTimeout t s"] assms TimeoutFired show ?thesis
    by (auto simp: gave_up_def)
next
  case (SocketOpened i)
  with assms show ?thesis by (auto simp: gave_up_def dest: nth_mem)
next
  case (SocketClosed i code)
  with assms show ?thesis
    by (auto simp: gave_up_def onclose_throws console_write_def dest!: set_update_subset_insert [THEN subsetD])
next
  case (SocketError i)
  with assms show ?thesis by (auto simp: gave_up_def onerror_def setLogs_append_def console_write_def)
next
  case (SocketMessage i d)
  with assms show ?thesis
    by (auto simp: gave_up_def onmessage_def setLogs_append_def console_write_def
        split: sum.splits option.splits)
next
  case (HeartbeatTick h)
  with assms show ?thesis by (auto simp: gave_up_def heartbeat_tick_def split: option.splits)
next
  case (StatusAnswer b)
  with assms show ?thesis by (auto simp: gave_up_def fetchStatus_done_def setLogs_append_def)
next
  case (StatusFailed m)
  with assms show ?thesis
    by (auto simp: gave_up_def fetchStatus_failed_def setLogs_append_def console_write_def Let_def)
next
  case DelayedStatusCheck
  with assms show ?thesis by (auto simp: gave_up_def fetchStatus_def setLogs_append_def Let_def)
next
  case (ConstructorPolicy b)
  with assms show ?thesis by (auto simp: gave_up_def)
next
  case ManualReconnect
  with assms show ?thesis by simp
qed

lemma run_gave_up:
  "gave_up s \<Longrightarrow> ManualReconnect \<notin> set es \<Longrightarrow>
     gave_up (run es s) \<and> length (wsockets (run es s)) = length (wsockets s) \<and>
     set (timeouts (run es s)) \<subseteq> set (timeouts s)"
proof (induction es arbitrary: s)
  case Nil
  then show ?case by simp
next
  case (Cons e es)
  from Cons.prems have e: "e \<noteq> ManualReconnect" "ManualReconnect \<notin> set es" by auto
  from step_gave_up [OF Cons.prems(1) e(1)] Cons.IH [of "step e s", OF _ e(2)]
  show ?case by auto
qed

lemma show_nat_1: "show_nat (Suc 0) = ''1''"
  by (simp add: show_nat.simps [of "Suc 0"] digit_char_def)

lemma show_nat_10: "show_nat 10 = ''10''"
  by (simp add: show_nat.simps [of 10] show_nat.simps [of "Suc 0"] digit_char_def)

lemma close_socket_fields:
  "length (wsockets (close_socket i s)) = length (wsockets s)"
  "retryCount (close_socket i s) = retryCount s" "timeouts (close_socket i s) = timeouts s"
  "retryTimeoutRef (close_socket i s) = retryTimeoutRef s" "logs (close_socket i s) = logs s"
  "fetches (close_socket i s) = fetches s" "isConnected (close_socket i s) = isConnected s"
  "statusMessage (close_socket i s) = statusMessage s" "blocked (close_socket i s) = blocked s"
  "last_timer (close_socket i s) = last_timer s"
  by (simp_all add: close_socket_def)

lemma connectWebSocket_attempt:
  assumes "retryCount s < MAX_RETRIES" "\<not> blocked s"
  shows "retryCount (connectWebSocket s) = retryCount s"
    "timeouts (connectWebSocket s) = without_retry (retryTimeoutRef s) (timeouts s)"
    "retryTimeoutRef (connectWebSocket s) = retryTimeoutRef s"
    "length (wsockets (connectWebSocket s)) = Suc (length (wsockets s))"
    "ws_current (connectWebSocket s) = Some (length (wsockets s))"
    "wsockets (connectWebSocket s) ! length (wsockets s) = 0"
    "fetches (connectWebSocket s) = fetches s"
    "logs (connectWebSocket s) =
       logs s @ [''Connecting to WebSocket (attempt '' @ show_nat (retryCount s + 1) @ ''/''
                   @ show_nat MAX_RETRIES @ '')...'']"
    "isConnected (connectWebSocket s) = isConnected s"
    "statusMessage (connectWebSocket s) = statusMessage s"
    "blocked (connectWebSocket s) = blocked s"
    "last_timer (connectWebSocket s) = last_timer s"
proof -
  define s0 where "s0 = (case retryTimeoutRef s of
                  Some t \<Rightarrow> if t \<noteq> 0 then clearTimeout t s else s
                | None \<Rightarrow> s)"
  define s1 where "s1 = (case ws_current s0 of Some i \<Rightarrow> close_socket i s0 | None \<Rightarrow> s0)"
  have s0: "retryCount s0 = retryCount s" "blocked s0 = blocked s" "wsockets s0 = wsockets s"
    "timeouts s0 = without_retry (retryTimeoutRef s) (timeouts s)" "logs s0 = logs s"
    "retryTimeoutRef s0 = retryTimeoutRef s" "fetches s0 = fetches s"
    "isConnected s0 = isConnected s" "statusMessage s0 = statusMessage s"
    "last_timer s0 = last_timer s"
    by (simp_all add: s0_def clearTimeout_def without_retry_def split: option.splits)
  have s1: "retryCount s1 = retryCount s" "blocked s1 = blocked s"
    "length (wsockets s1) = length (wsockets s)"
    "timeouts s1 = without_retry (retryTimeoutRef s) (timeouts s)" "logs s1 = logs s"
    "retryTimeoutRef s1 = retryTimeoutRef s" "fetches s1 = fetches s"
    "isConnected s1 = isConnected s" "statusMessage s1 = statusMessage s"
    "last_timer s1 = last_timer s"
    by (simp_all add: s1_def close_socket_fields s0 split: option.splits)
  have c: "connectWebSocket s =
     (setLogs_append (''Connecting to WebSocket (attempt '' @ show_nat (retryCount s1 + 1)
                          @ ''/'' @ show_nat MAX_RETRIES @ '')...'') s1)
       \<lparr>wsockets := wsockets s1 @ [0], ws_current := Some (length (wsockets s1))\<rparr>"
    unfolding connectWebSocket_def s0_def [symmetric] Let_def s1_def [symmetric]
    using assms by (simp add: s0 s1 setLogs_append_def)
  show "retryCount (connectWebSocket s) = retryCount s"
    "timeouts (connectWebSocket s) = without_retry (retryTimeoutRef s) (timeouts s)"
    "retryTimeoutRef (connectWebSocket s) = retryTimeoutRef s"
    "length (wsockets (connectWebSocket s)) = Suc (length (wsockets s))"
    "ws_current (connectWebSocket s) = Some (length (wsockets s))"
    "wsockets (connectWebSocket s) ! length (wsockets s) = 0"
    "fetches (connectWebSocket s) = fetches s"
    "logs (connectWebSocket s) =
       logs s @ [''Connecting to WebSocket (attempt '' @ show_nat (retryCount s + 1) @ ''/''
                   @ show_nat MAX_RETRIES @ '')...'']"
    "isConnected (connectWebSocket s) = isConnected s"
    "statusMessage (connectWebSocket s) = statusMessage s"
    "blocked (connectWebSocket s) = blocked s"
    "last_timer (connectWebSocket s) = last_timer s"
    unfolding c by (simp_all add: s1 setLogs_append_def nth_append)
qed

lemma connectWebSocket_blocked:
  assumes "retryCount s < MAX_RETRIES" "blocked s"
  shows "retryCount (connectWebSocket s) = Suc (retryCount s)"
    "timeouts (connectWebSocket s) =
       without_retry (retryTimeoutRef s) (timeouts s)
         @ [(Suc (last_timer s), retryDelay_of (Suc (retryCount s)))]"
    "retryTimeoutRef (connectWebSocket s) = Some (Suc (last_timer s))"
    "last_timer (connectWebSocket s) = Suc (last_timer s)"
    "length (wsockets (connectWebSocket s)) = length (wsockets s)"
    "blocked (connectWebSocket s)"
proof -
  define s0 where "s0 = (case retryTimeoutRef s of
                  Some t \<Rightarrow> if t \<noteq> 0 then clearTimeout t s else s
                | None \<Rightarrow> s)"
  define s1 where "s1 = (case ws_current s0 of Some i \<Rightarrow> close_socket i s0 | None \<Rightarrow> s0)"
  have s0: "retryCount s0 = retryCount s" "blocked s0 = blocked s" "wsockets s0 = wsockets s"
    "timeouts s0 = without_retry (retryTimeoutRef s) (timeouts s)"
    "last_timer s0 = last_timer s"
    by (simp_all add: s0_def clearTimeout_def without_retry_def split: option.splits)
  have s1: "retryCount s1 = retryCount s" "blocked s1 = blocked s"
    "length (wsockets s1) = length (wsockets s)"
    "timeouts s1 = without_retry (retryTimeoutRef s) (timeouts s)"
    "last_timer s1 = last_timer s"
    by (simp_all add: s1_def close_socket_fields s0 split: option.splits)
  have c: "connectWebSocket s =
     schedule_retry (retryDelay_of (Suc (retryCount s)))
       ((console_write ''Failed to create WebSocket:''
          (setLogs_append (''Connecting to WebSocket (attempt '' @ show_nat (retryCount s1 + 1)
                          @ ''/'' @ show_nat MAX_RETRIES @ '')...'') s1))
        \<lparr>statusMessage := ''Failed to create WebSocket connection'',
         retryCount := Suc (retryCount s)\<rparr>)"
    unfolding connectWebSocket_def s0_def [symmetric] Let_def s1_def [symmetric]
    using assms by (simp add: s0 s1 setLogs_append_def console_write_def)
  show "retryCount (connectWebSocket s) = Suc (retryCount s)"
    "timeouts (connectWebSocket s) =
       without_retry (retryTimeoutRef s) (timeouts s)
         @ [(Suc (last_timer s), retryDelay_of (Suc (retryCount s)))]"
    "retryTimeoutRef (connectWebSocket s) = Some (Suc (last_timer s))"
    "last_timer (connectWebSocket s) = Suc (last_timer s)"
    "length (wsockets (connectWebSocket s)) = length (wsockets s)"
    "blocked (connectWebSocket s)"
    unfolding c using assms(2)
    by (simp_all add: s1 setLogs_append_def console_write_def schedule_retry_def Let_def)
qed

lemma connectWebSocket_gives_up:
  assumes "MAX_RETRIES \<le> retryCount s"
  shows "timeouts (connectWebSocket s) = without_retry (retryTimeoutRef s) (timeouts s)"
    "retryTimeoutRef (connectWebSocket s) = retryTimeoutRef s"
    "last_timer (connectWebSocket s) = last_timer s"
  using assms
  by (simp_all add: connectWebSocket_def Let_def clearTimeout_def console_write_def
      without_retry_def split: option.splits)

lemma without_retry_tracked:
  assumes "tracked s"
  shows "without_retry (retryTimeoutRef s) (timeouts s) = []"
proof (cases "timeouts s")
  case Nil
  then show ?thesis by (simp add: without_retry_def split: option.splits)
next
  case (Cons p ps)
  with assms have r: "retryTimeoutRef s = Some (fst p)" "fst p \<noteq> 0"
    by (auto simp: tracked_def)
  from assms r have "\<forall>q\<in>set (timeouts s). fst q = fst p" by (auto simp: tracked_def)
  with r show ?thesis by (simp add: without_retry_def filter_empty_conv)
qed

lemma without_retry_idem: "without_retry r (without_retry r ts) = without_retry r ts"
  by (simp add: without_retry_def split: option.splits)

lemma connectWebSocket_tracked:
  assumes "tracked s"
  shows "tracked (connectWebSocket s)"
proof (cases "MAX_RETRIES \<le> retryCount s")
  case True
  from connectWebSocket_gives_up [OF True] without_retry_tracked [OF assms] show ?thesis
    by (simp add: tracked_def)
next
  case False
  then have lt: "retryCount s < MAX_RETRIES" by simp
  show ?thesis
  proof (cases "blocked s")
    case True
    from connectWebSocket_blocked [OF lt True] without_retry_tracked [OF assms] show ?thesis
      by (simp add: tracked_def)
  next
    case False
    from connectWebSocket_attempt [OF lt False] without_retry_tracked [OF assms] show ?thesis
      by (simp add: tracked_def)
  qed
qed

lemma tracked_reset:
  "tracked s \<Longrightarrow> tracked (s\<lparr>retryCount := n\<rparr>)" "tracked s \<Longrightarrow> tracked (setLogs_append m s)"
  "tracked s \<Longrightarrow> tracked (fetchStatus s)" "tracked s \<Longrightarrow> tracked (clearTimeout t s)"
  "tracked s \<Longrightarrow> tracked (s\<lparr>wsockets := w\<rparr>)" "tracked s \<Longrightarrow> tracked (s\<lparr>fetches := f\<rparr>)"
  by (auto simp: tracked_def setLogs_append_def fetchStatus_def Let_def clearTimeout_def)

lemma step_tracked: "tracked s \<Longrightarrow> tracked (step e s)"
proof (cases e)
  case (TimeoutFired t)
  assume "tracked s"
  with TimeoutFired show ?thesis by (simp add: connectWebSocket_tracked tracked_reset)
next
  case (SocketOpened i)
  assume "tracked s"
  with SocketOpened show ?thesis
    by (auto simp: tracked_def onopen_def Let_def console_write_def setLogs_append_def fetchStatus_def)
next
  case (SocketClosed i code)
  assume "tracked s"
  with SocketClosed show ?thesis by (auto simp: tracked_def onclose_throws console_write_def)
next
  case (SocketError i)
  assume "tracked s"
  with SocketError show ?thesis
    by (auto simp: tracked_def onerror_def console_write_def setLogs_append_def)
next
  case (SocketMessage i d)
  assume "tracked s"
  with SocketMessage show ?thesis
    by (auto simp: tracked_def onmessage_def console_write_def setLogs_append_def
        split: sum.splits option.splits)
next
  case (HeartbeatTick h)
  assume "tracked s"
  with HeartbeatTick show ?thesis by (auto simp: tracked_def heartbeat_tick_def split: option.splits)
next
  case (StatusAnswer b)
  assume "tracked s"
  with StatusAnswer show ?thesis
    by (auto simp: tracked_def fetchStatus_done_def setLogs_append_def)
next
  case (StatusFailed m)
  assume "tracked s"
  with StatusFailed show ?thesis
    by (auto simp: tracked_def fetchStatus_failed_def setLogs_append_def console_write_def Let_def)
next
  case DelayedStatusCheck
  assume "tracked s"
  with DelayedStatusCheck show ?thesis by (simp add: tracked_reset)
next
  case (ConstructorPolicy b)
  assume "tracked s"
  with ConstructorPolicy show ?thesis by (auto simp: tracked_def)
next
  case ManualReconnect
  assume "tracked s"
  with ManualReconnect show ?thesis
    by (simp add: handleCheckConnection_def Let_def connectWebSocket_tracked tracked_reset)
qed

lemma run_tracked: "tracked s \<Longrightarrow> tracked (run es s)"
  by (induction es arbitrary: s) (simp_all add: step_tracked)

lemma initial_tracked: "tracked initial_session"
  by (simp add: tracked_def initial_session_def)

lemma mount_tracked: "tracked s \<Longrightarrow> tracked (mount s)"
  by (simp add: mount_def connectWebSocket_tracked)

lemma handleCheckConnection_attempt:
  assumes "\<not> blocked s"
  shows "retryCount (handleCheckConnection s) = 0"
    "timeouts (handleCheckConnection s) = without_retry (retryTimeoutRef s) (timeouts s)"
    "retryTimeoutRef (handleCheckConnection s) = retryTimeoutRef s"
    "length (wsockets (handleCheckConnection s)) = Suc (length (wsockets s))"
    "ws_current (handleCheckConnection s) = Some (length (wsockets s))"
    "wsockets (handleCheckConnection s) ! length (wsockets s) = 0"
    "fetches (handleCheckConnection s) = Suc (fetches s)"
    "logs (handleCheckConnection s) =
       logs s @ [''Manual connection check initiated...'',
                 ''Connecting to WebSocket (attempt 1/10)...'', ''Checking server status...'']"
    "isConnected (handleCheckConnection s) = isConnected s"
    "statusMessage (handleCheckConnection s) = statusMessage s"
    "blocked (handleCheckConnection s) = blocked s"
proof -
  define s2 where "s2 = (setLogs_append ''Manual connection check initiated...'' s)\<lparr>retryCount := 0\<rparr>"
  have s2: "retryCount s2 < MAX_RETRIES" "\<not> blocked s2"
    using assms by (simp_all add: s2_def setLogs_append_def MAX_RETRIES_def)
  have h: "handleCheckConnection s = fetchStatus (connectWebSocket s2)"
    by (simp add: handleCheckConnection_def Let_def s2_def)
  note c = connectWebSocket_attempt [OF s2]
  have f: "retryCount s2 = 0" "timeouts s2 = timeouts s" "retryTimeoutRef s2 = retryTimeoutRef s"
    "wsockets s2 = wsockets s" "fetches s2 = fetches s"
    "logs s2 = logs s @ [''Manual connection check initiated...'']"
    "isConnected s2 = isConnected s" "statusMessage s2 = statusMessage s" "blocked s2 = blocked s"
    by (simp_all add: s2_def setLogs_append_def)
  show "retryCount (handleCheckConnection s) = 0"
    "timeouts (handleCheckConnection s) = without_retry (retryTimeoutRef s) (timeouts s)"
    "retryTimeoutRef (handleCheckConnection s) = retryTimeoutRef s"
    "length (wsockets (handleCheckConnection s)) = Suc (length (wsockets s))"
    "ws_current (handleCheckConnection s) = Some (length (wsockets s))"
    "wsockets (handleCheckConnection s) ! length (wsockets s) = 0"
    "fetches (handleCheckConnection s) = Suc (fetches s)"
    "logs (handleCheckConnection s) =
       logs s @ [''Manual connection check initiated...'',
                 ''Connecting to WebSocket (attempt 1/10)...'', ''Checking server status...'']"
    "isConnected (handleCheckConnection s) = isConnected s"
    "statusMessage (handleCheckConnection s) = statusMessage s"
    "blocked (handleCheckConnection s) = blocked s"
    unfolding h using c
    by (simp_all add: fetchStatus_def Let_def setLogs_append_def f show_nat_1 show_nat_10
        MAX_RETRIES_def)
qed

lemma handleCheckConnection_blocked:
  assumes "blocked s"
  shows "retryCount (handleCheckConnection s) = 1"
    "timeouts (handleCheckConnection s) =
       without_retry (retryTimeoutRef s) (timeouts s) @ [(Suc (last_timer s), 1000)]"
    "length (wsockets (handleCheckConnection s)) = length (wsockets s)"
proof -
  define s2 where "s2 = (setLogs_append ''Manual connection check initiated...'' s)\<lparr>retryCount := 0\<rparr>"
  have s2: "retryCount s2 < MAX_RETRIES" "blocked s2"
    using assms by (simp_all add: s2_def setLogs_append_def MAX_RETRIES_def)
  have h: "handleCheckConnection s = fetchStatus (connectWebSocket s2)"
    by (simp add: handleCheckConnection_def Let_def s2_def)
  note c = connectWebSocket_blocked [OF s2]
  have f: "retryCount s2 = 0" "timeouts s2 = timeouts s" "retryTimeoutRef s2 = retryTimeoutRef s"
    "wsockets s2 = wsockets s" "last_timer s2 = last_timer s"
    by (simp_all add: s2_def setLogs_append_def)
  show "retryCount (handleCheckConnection s) = 1"
    "timeouts (handleCheckConnection s) =
       without_retry (retryTimeoutRef s) (timeouts s) @ [(Suc (last_timer s), 1000)]"
    "length (wsockets (handleCheckConnection s)) = length (wsockets s)"
    unfolding h using c
    by (simp_all add: fetchStatus_def Let_def setLogs_append_def f retryDelay_of_def)
qed

text \<open>The delays of the backoff: 1, 2, 4, 8 and 16 seconds, then 30 seconds for good.\<close>

lemma retryDelay_of_small:
  "retryDelay_of 1 = 1000" "retryDelay_of 2 = 2000" "retryDelay_of 3 = 4000"
  "retryDelay_of 4 = 8000" "retryDelay_of 5 = 16000"
  by (simp_all add: retryDelay_of_def eval_nat_numeral)

lemma retryDelay_of_capped:
  assumes "6 \<le> n"
  shows "retryDelay_of n = 30000"
proof -
  from assms have "5 \<le> n - 1" by simp
  then have "(2::nat) ^ 5 \<le> 2 ^ (n - 1)" by (intro power_increasing) simp_all
  then have "30000 \<le> 1000 * (2::nat) ^ (n - 1)" by simp
  then show ?thesis by (simp add: retryDelay_of_def)
qed

text \<open>
  Claim C2 says that on every close of the channel of a connected session the retry
  counter is incremented, a log entry is recorded and a reconnect is scheduled after
  \<open>min(1000 * 2^(n-1), 30000)\<close> ms. The handler does not get that far: on the close
  of the channel of a connected session, with code 1006, reading \<^verbatim>\<open>heartbeatInterval\<close>
  at line 98 throws, and the counter, the local log and the pending timeouts are as
  before; the session still shows as connected.
\<close>

theorem close_handler_throws:
  "isConnected connected_session \<and> wsockets connected_session = [1] \<and>
   retryCount (step (SocketClosed 0 1006) connected_session) = retryCount connected_session \<and>
   logs (step (SocketClosed 0 1006) connected_session) = logs connected_session \<and>
   timeouts (step (SocketClosed 0 1006) connected_session) = [] \<and>
   isConnected (step (SocketClosed 0 1006) connected_session) \<and>
   uncaught (step (SocketClosed 0 1006) connected_session) =
     [ReferenceError ''heartbeatInterval is not defined'']"
  by (simp add: connected_session_def mount_def initial_session_def connectWebSocket_def
      MAX_RETRIES_def Let_def setLogs_append_def onopen_def console_write_def fetchStatus_def
      onclose_throws)

lemma ceiling_session_fields:
  "retryCount ceiling_session = 10" "wsockets ceiling_session = []"
  "timeouts ceiling_session = [(10, 30000)]" "blocked ceiling_session"
  "last_timer ceiling_session = 10" "retryTimeoutRef ceiling_session = Some 10"
  by (simp_all add: ceiling_session_def mount_def blocked_session_def initial_session_def
      connectWebSocket_def Let_def MAX_RETRIES_def setLogs_append_def console_write_def
      schedule_retry_def retryDelay_of_def clearTimeout_def)

lemma retrying_session_fields:
  "retryCount retrying_session = 2" "wsockets retrying_session = []"
  "timeouts retrying_session = [(2, 2000)]" "\<not> blocked retrying_session"
  "last_timer retrying_session = 2" "retryTimeoutRef retrying_session = Some 2"
  "fetches retrying_session = 0"
  by (simp_all add: retrying_session_def mount_def blocked_session_def initial_session_def
      connectWebSocket_def Let_def MAX_RETRIES_def setLogs_append_def console_write_def
      schedule_retry_def retryDelay_of_def clearTimeout_def)

lemma after_close_none:
  assumes "\<forall>i<length (wsockets s). ws_current s \<noteq> Some i \<longrightarrow> 2 \<le> wsockets s ! i"
  shows "\<forall>r\<in>set (after_close s). 2 \<le> r"
proof
  fix r
  assume "r \<in> set (after_close s)"
  then obtain j where j: "j < length (after_close s)" "r = after_close s ! j"
    by (auto simp: in_set_conv_nth)
  have len: "length (after_close s) = length (wsockets s)"
    by (simp add: after_close_def close_socket_fields split: option.splits)
  show "2 \<le> r"
  proof (cases "ws_current s = Some j")
    case True
    with j len show ?thesis
      by (cases "wsockets s ! j = 1 \<or> wsockets s ! j = 0")
        (auto simp: after_close_def close_socket_def)
  next
    case False
    with j len assms have "2 \<le> wsockets s ! j" by simp
    moreover have "after_close s ! j = wsockets s ! j"
    proof (cases "ws_current s")
      case None
      then show ?thesis by (simp add: after_close_def)
    next
      case (Some c)
      with False have "c \<noteq> j" by simp
      with Some show ?thesis by (simp add: after_close_def close_socket_def)
    qed
    ultimately show ?thesis using j by simp
  qed
qed

lemma connectWebSocket_channels:
  "MAX_RETRIES \<le> retryCount s \<Longrightarrow>
     wsockets (connectWebSocket s) = wsockets s \<and> ws_current (connectWebSocket s) = ws_current s"
  "retryCount s < MAX_RETRIES \<Longrightarrow> blocked s \<Longrightarrow>
     wsockets (connectWebSocket s) = after_close s \<and> ws_current (connectWebSocket s) = ws_current s"
  "retryCount s < MAX_RETRIES \<Longrightarrow> \<not> blocked s \<Longrightarrow>
     wsockets (connectWebSocket s) = after_close s @ [0] \<and>
     ws_current (connectWebSocket s) = Some (length (after_close s))"
proof -
  define s0 where "s0 = (case retryTimeoutRef s of
                  Some t \<Rightarrow> if t \<noteq> 0 then clearTimeout t s else s
                | None \<Rightarrow> s)"
  define s1 where "s1 = (case ws_current s0 of Some i \<Rightarrow> close_socket i s0 | None \<Rightarrow> s0)"
  have s0: "retryCount s0 = retryCount s" "blocked s0 = blocked s" "wsockets s0 = wsockets s"
    "ws_current s0 = ws_current s"
    by (simp_all add: s0_def clearTimeout_def split: option.splits)
  have s1: "retryCount s1 = retryCount s" "blocked s1 = blocked s"
    "wsockets s1 = after_close s" "ws_current s1 = ws_current s"
    by (auto simp: s1_def s0 after_close_def close_socket_def split: option.splits)
  show "MAX_RETRIES \<le> retryCount s \<Longrightarrow>
     wsockets (connectWebSocket s) = wsockets s \<and> ws_current (connectWebSocket s) = ws_current s"
    unfolding connectWebSocket_def s0_def [symmetric] Let_def
    by (simp add: s0 console_write_def)
  show "retryCount s < MAX_RETRIES \<Longrightarrow> blocked s \<Longrightarrow>
     wsockets (connectWebSocket s) = after_close s \<and> ws_current (connectWebSocket s) = ws_current s"
    unfolding connectWebSocket_def s0_def [symmetric] Let_def s1_def [symmetric]
    by (simp add: s0 s1 setLogs_append_def console_write_def schedule_retry_def Let_def)
  show "retryCount s < MAX_RETRIES \<Longrightarrow> \<not> blocked s \<Longrightarrow>
     wsockets (connectWebSocket s) = after_close s @ [0] \<and>
     ws_current (connectWebSocket s) = Some (length (after_close s))"
    unfolding connectWebSocket_def s0_def [symmetric] Let_def s1_def [symmetric]
    by (simp add: s0 s1 setLogs_append_def)
qed

lemma connectWebSocket_single_channel:
  assumes "single_channel s"
  shows "single_channel (connectWebSocket s)"
proof -
  from assms have a: "\<forall>i<length (wsockets s). ws_current s \<noteq> Some i \<longrightarrow> 2 \<le> wsockets s ! i"
    by (simp add: single_channel_def)
  note n = after_close_none [OF a]
  show ?thesis
  proof (cases "MAX_RETRIES \<le> retryCount s")
    case True
    with connectWebSocket_channels(1) [OF True] connectWebSocket_ceiling(3) [OF True] assms
    show ?thesis by (simp add: single_channel_def)
  next
    case False
    then have lt: "retryCount s < MAX_RETRIES" by simp
    show ?thesis
    proof (cases "blocked s")
      case True
      from connectWebSocket_channels(2) [OF lt True] n show ?thesis
        by (simp add: single_channel_def)
    next
      case False
      from connectWebSocket_channels(3) [OF lt False] connectWebSocket_attempt(1) [OF lt False] n lt
      show ?thesis
        by (auto simp: single_channel_def nth_append)
    qed
  qed
qed

lemma single_channel_fields:
  "single_channel s \<Longrightarrow> single_channel (setLogs_append m s)"
  "single_channel s \<Longrightarrow> single_channel (console_write m s)"
  "single_channel s \<Longrightarrow> single_channel (fetchStatus s)"
  "single_channel s \<Longrightarrow> single_channel (clearTimeout t s)"
  "single_channel s \<Longrightarrow> single_channel (s\<lparr>retryCount := 0\<rparr>)"
  "single_channel s \<Longrightarrow> single_channel (s\<lparr>blocked := b\<rparr>)"
  by (auto simp: single_channel_def setLogs_append_def console_write_def fetchStatus_def
      Let_def clearTimeout_def MAX_RETRIES_def)

lemma step_single_channel:
  assumes "single_channel s"
  shows "single_channel (step e s)"
proof (cases e)
  case (TimeoutFired t)
  with assms show ?thesis
    by (simp add: connectWebSocket_single_channel single_channel_fields)
next
  case (SocketOpened i)
  show ?thesis
  proof (cases "i < length (wsockets s) \<and> wsockets s ! i = 0")
    case False
    with SocketOpened assms show ?thesis by auto
  next
    case True
    with assms have c: "ws_current s = Some i" by (auto simp: single_channel_def)
    have "\<forall>j<length (wsockets s). j \<noteq> i \<longrightarrow> 2 \<le> (wsockets s)[i := 1] ! j"
      using assms c by (auto simp: single_channel_def)
    with SocketOpened True c show ?thesis
      by (simp add: single_channel_def onopen_def Let_def console_write_def setLogs_append_def
          fetchStatus_def MAX_RETRIES_def)
  qed
next
  case (SocketClosed i code)
  show ?thesis
  proof (cases "i < length (wsockets s) \<and> wsockets s ! i \<noteq> 3")
    case False
    with SocketClosed assms show ?thesis by auto
  next
    case True
    have "\<forall>j<length (wsockets s). ws_current s \<noteq> Some j \<longrightarrow> 2 \<le> (wsockets s)[i := 3] ! j"
      using assms True by (auto simp: single_channel_def nth_list_update)
    moreover have "MAX_RETRIES \<le> retryCount s \<longrightarrow> (\<forall>r\<in>set ((wsockets s)[i := 3]). 2 \<le> r)"
    proof (intro impI ballI)
      fix r
      assume m: "MAX_RETRIES \<le> retryCount s" and "r \<in> set ((wsockets s)[i := 3])"
      then have "r \<in> insert 3 (set (wsockets s))"
        using set_update_subset_insert by fastforce
      with m assms show "2 \<le> r" by (auto simp: single_channel_def)
    qed
    ultimately show ?thesis using SocketClosed True
      by (simp add: single_channel_def onclose_throws console_write_def)
  qed
next
  case (SocketError i)
  with assms show ?thesis by (simp add: onerror_def single_channel_fields)
next
  case (SocketMessage i d)
  with assms show ?thesis
    by (auto simp: onmessage_def single_channel_fields split: sum.splits option.splits)
next
  case (HeartbeatTick h)
  with assms show ?thesis
    by (auto simp: single_channel_def heartbeat_tick_def split: option.splits)
next
  case (StatusAnswer b)
  with assms show ?thesis
    by (auto simp: single_channel_def fetchStatus_done_def setLogs_append_def)
next
  case (StatusFailed m)
  with assms show ?thesis
    by (auto simp: single_channel_def fetchStatus_failed_def setLogs_append_def console_write_def Let_def)
next
  case DelayedStatusCheck
  with assms show ?thesis by (simp add: single_channel_fields)
next
  case (ConstructorPolicy b)
  with assms show ?thesis by (simp add: single_channel_fields)
next
  case ManualReconnect
  with assms show ?thesis
    by (simp add: handleCheckConnection_def Let_def connectWebSocket_single_channel
        single_channel_fields)
qed

lemma run_single_channel: "single_channel s \<Longrightarrow> single_channel (run es s)"
  by (induction es arbitrary: s) (simp_all add: step_single_channel)

lemma started_single_channel:
  "single_channel (run es (mount (initial_session\<lparr>blocked := b\<rparr>)))"
proof -
  have "single_channel (initial_session\<lparr>blocked := b\<rparr>)"
    by (simp add: single_channel_def initial_session_def)
  then show ?thesis by (simp add: mount_def connectWebSocket_single_channel run_single_channel)
qed

text \<open>
  Claim C3. Take any run of a session from its mount, whatever the constructor does.
  Once the retry counter is at the ceiling of 10, no event other than a manual
  reconnect constructs a WebSocket or schedules a timeout, and the counter stays at
  the ceiling: a timeout that is still pending fires into the guard of
  \<^verbatim>\<open>connectWebSocket\<close>. A manual reconnect then resets the counter and makes an
  attempt: the new channel is connecting with the counter at 0, or, when the
  constructor throws, the counter is 1 and a retry is scheduled after 1000 ms.
\<close>

theorem ceiling_halts_retries:
  assumes "s = run es0 (mount (initial_session\<lparr>blocked := b\<rparr>))"
    and "MAX_RETRIES \<le> retryCount s" and "ManualReconnect \<notin> set es"
  shows "length (wsockets (run es s)) = length (wsockets s) \<and>
         set (timeouts (run es s)) \<subseteq> set (timeouts s) \<and>
         MAX_RETRIES \<le> retryCount (run es s) \<and>
         (if blocked (run es s)
          then retryCount (step ManualReconnect (run es s)) = 1 \<and>
               (\<exists>t. (t, 1000) \<in> set (timeouts (step ManualReconnect (run es s))))
          else retryCount (step ManualReconnect (run es s)) = 0 \<and>
               ws_current (step ManualReconnect (run es s)) = Some (length (wsockets s)) \<and>
               wsockets (step ManualReconnect (run es s)) ! length (wsockets s) = 0)"
proof -
  from assms(1) have "single_channel s" by (simp add: started_single_channel)
  with assms(2) have "\<forall>r\<in>set (wsockets s). 2 \<le> r" by (simp add: single_channel_def)
  then have "0 \<notin> set (wsockets s)" by auto
  with assms(2) have g: "gave_up s" by (simp add: gave_up_def)
  note r = run_gave_up [OF g assms(3)]
  show ?thesis
  proof (cases "blocked (run es s)")
    case True
    from handleCheckConnection_blocked [OF True] r True show ?thesis
      by (auto simp: gave_up_def)
  next
    case False
    from handleCheckConnection_attempt [OF False] r False show ?thesis
      by (auto simp: gave_up_def)
  qed
qed

theorem ceiling_halts_retries_witness:
  "ceiling_session =
     run (map TimeoutFired [1, 2, 3, 4, 5, 6, 7, 8, 9]) (mount (initial_session\<lparr>blocked := True\<rparr>)) \<and>
   MAX_RETRIES \<le> retryCount ceiling_session \<and>
   ManualReconnect \<notin> set [TimeoutFired 10, SocketError 0, DelayedStatusCheck,
                            StatusFailed ''timeout'', ConstructorPolicy False] \<and>
   length (wsockets (run [TimeoutFired 10, SocketError 0, DelayedStatusCheck,
                          StatusFailed ''timeout'', ConstructorPolicy False] ceiling_session)) = 0 \<and>
   set (timeouts (run [TimeoutFired 10, SocketError 0, DelayedStatusCheck,
                       StatusFailed ''timeout'', ConstructorPolicy False] ceiling_session))
     \<subseteq> {(10, 30000)} \<and>
   retryCount (step ManualReconnect
     (run [TimeoutFired 10, SocketError 0, DelayedStatusCheck,
           StatusFailed ''timeout'', ConstructorPolicy False] ceiling_session)) = 0 \<and>
   ws_current (step ManualReconnect
     (run [TimeoutFired 10, SocketError 0, DelayedStatusCheck,
           StatusFailed ''timeout'', ConstructorPolicy False] ceiling_session)) = Some 0"
proof -
  define es where "es = [TimeoutFired 10, SocketError 0, DelayedStatusCheck,
                            StatusFailed ''timeout'', ConstructorPolicy False]"
  have o: "ceiling_session =
     run (map TimeoutFired [1, 2, 3, 4, 5, 6, 7, 8, 9]) (mount (initial_session\<lparr>blocked := True\<rparr>))"
    by (simp only: ceiling_session_def blocked_session_def)
  have a: "MAX_RETRIES \<le> retryCount ceiling_session" "ManualReconnect \<notin> set es"
    by (simp_all add: ceiling_session_fields MAX_RETRIES_def es_def)
  have b: "\<not> blocked (run es ceiling_session)"
    by (simp add: es_def fetchStatus_failed_def Let_def console_write_def setLogs_append_def)
  from ceiling_halts_retries [OF o a] a b
  have "length (wsockets (run es ceiling_session)) = 0 \<and>
        set (timeouts (run es ceiling_session)) \<subseteq> {(10, 30000)} \<and>
        retryCount (step ManualReconnect (run es ceiling_session)) = 0 \<and>
        ws_current (step ManualReconnect (run es ceiling_session)) = Some 0"
    by (simp add: ceiling_session_fields)
  with a have "MAX_RETRIES \<le> retryCount ceiling_session \<and>
        ManualReconnect \<notin> set es \<and>
        length (wsockets (run es ceiling_session)) = 0 \<and>
        set (timeouts (run es ceiling_session)) \<subseteq> {(10, 30000)} \<and>
        retryCount (step ManualReconnect (run es ceiling_session)) = 0 \<and>
        ws_current (step ManualReconnect (run es ceiling_session)) = Some 0"
    by blast
  then have rest: "?this" .
  from o rest show ?thesis unfolding es_def by (rule conjI)
qed

lemma after_close_length: "length (after_close s) = length (wsockets s)"
  by (simp add: after_close_def close_socket_fields split: option.splits)

lemma after_close_nth:
  assumes "j < length (wsockets s)"
  shows "after_close s ! j =
           (if ws_current s = Some j \<and> wsockets s ! j < 2 then 2 else wsockets s ! j)"
proof (cases "ws_current s")
  case None
  then show ?thesis by (simp add: after_close_def)
next
  case (Some c)
  show ?thesis
  proof (cases "c = j")
    case True
    with Some assms show ?thesis
      by (cases "wsockets s ! j = 1 \<or> wsockets s ! j = 0")
        (auto simp: after_close_def close_socket_def)
  next
    case False
    with Some show ?thesis by (auto simp: after_close_def close_socket_def)
  qed
qed

lemma after_close_cong:
  "wsockets s' = wsockets s \<Longrightarrow> ws_current s' = ws_current s \<Longrightarrow> after_close s' = after_close s"
  by (auto simp: after_close_def close_socket_def split: option.splits)

lemma after_close_again:
  assumes "wsockets s' = after_close s" "ws_current s' = ws_current s"
  shows "after_close s' = after_close s"
proof (rule nth_equalityI)
  show "length (after_close s') = length (after_close s)"
    using assms by (simp add: after_close_length)
next
  fix j
  assume "j < length (after_close s')"
  then have j: "j < length (wsockets s)" "j < length (wsockets s')"
    using assms by (simp_all add: after_close_length)
  show "after_close s' ! j = after_close s ! j"
    using after_close_nth [OF j(2)] after_close_nth [OF j(1)] assms by auto
qed

lemma after_close_new:
  assumes "wsockets s' = after_close s @ [0]" "ws_current s' = Some (length (wsockets s))"
  shows "after_close s' = after_close s @ [2]"
proof -
  define a where "a = after_close s"
  have len: "length a = length (wsockets s)" by (simp add: a_def after_close_length)
  have w: "wsockets s' = a @ [0]" using assms(1) by (simp add: a_def)
  have "after_close s' = wsockets (close_socket (length a) s')"
    using assms(2) by (simp add: after_close_def len)
  also have "\<dots> = (a @ [0])[length a := 2]"
    by (simp add: close_socket_def w)
  also have "\<dots> = a @ [2]" by simp
  finally show ?thesis by (simp add: a_def)
qed

lemma connectWebSocket_blocked_more:
  assumes "retryCount s < MAX_RETRIES" "blocked s"
  shows "isConnected (connectWebSocket s) = isConnected s"
    "statusMessage (connectWebSocket s) = ''Failed to create WebSocket connection''"
    "fetches (connectWebSocket s) = fetches s"
    "\<exists>e. logs (connectWebSocket s) = logs s @ [e]"
proof -
  define s0 where "s0 = (case retryTimeoutRef s of
                  Some t \<Rightarrow> if t \<noteq> 0 then clearTimeout t s else s
                | None \<Rightarrow> s)"
  define s1 where "s1 = (case ws_current s0 of Some i \<Rightarrow> close_socket i s0 | None \<Rightarrow> s0)"
  have s0: "retryCount s0 = retryCount s" "blocked s0 = blocked s" "logs s0 = logs s"
    "fetches s0 = fetches s" "isConnected s0 = isConnected s"
    by (simp_all add: s0_def clearTimeout_def split: option.splits)
  have s1: "retryCount s1 = retryCount s" "blocked s1 = blocked s" "logs s1 = logs s"
    "fetches s1 = fetches s" "isConnected s1 = isConnected s"
    by (simp_all add: s1_def close_socket_fields s0 split: option.splits)
  have c: "connectWebSocket s =
     schedule_retry (retryDelay_of (Suc (retryCount s)))
       ((console_write ''Failed to create WebSocket:''
          (setLogs_append (''Connecting to WebSocket (attempt '' @ show_nat (retryCount s1 + 1)
                          @ ''/'' @ show_nat MAX_RETRIES @ '')...'') s1))
        \<lparr>statusMessage := ''Failed to create WebSocket connection'',
         retryCount := Suc (retryCount s)\<rparr>)"
    unfolding connectWebSocket_def s0_def [symmetric] Let_def s1_def [symmetric]
    using assms by (simp add: s0 s1 setLogs_append_def console_write_def)
  show "isConnected (connectWebSocket s) = isConnected s"
    "statusMessage (connectWebSocket s) = ''Failed to create WebSocket connection''"
    "fetches (connectWebSocket s) = fetches s"
    "\<exists>e. logs (connectWebSocket s) = logs s @ [e]"
    unfolding c
    by (simp_all add: s1 setLogs_append_def console_write_def schedule_retry_def Let_def)
qed

text \<open>One manual reconnect, from a state with the two invariants of a session.\<close>

lemma manual_reconnect_once:
  assumes t: "tracked s" and c: "single_channel s"
  shows "tracked (handleCheckConnection s)" "single_channel (handleCheckConnection s)"
    "blocked (handleCheckConnection s) = blocked s"
    "fetches (handleCheckConnection s) = Suc (fetches s)"
    "\<exists>e. logs (handleCheckConnection s) =
        logs s @ [''Manual connection check initiated...'', e, ''Checking server status...'']"
    "isConnected (handleCheckConnection s) = isConnected s"
    "blocked s \<Longrightarrow>
       retryCount (handleCheckConnection s) = 1 \<and>
       timeouts (handleCheckConnection s) = [(Suc (last_timer s), 1000)] \<and>
       wsockets (handleCheckConnection s) = after_close s \<and>
       ws_current (handleCheckConnection s) = ws_current s \<and>
       statusMessage (handleCheckConnection s) = ''Failed to create WebSocket connection''"
    "\<not> blocked s \<Longrightarrow>
       retryCount (handleCheckConnection s) = 0 \<and>
       timeouts (handleCheckConnection s) = [] \<and>
       wsockets (handleCheckConnection s) = after_close s @ [0] \<and>
       ws_current (handleCheckConnection s) = Some (length (wsockets s)) \<and>
       statusMessage (handleCheckConnection s) = statusMessage s \<and>
       logs (handleCheckConnection s) =
         logs s @ [''Manual connection check initiated...'',
                   ''Connecting to WebSocket (attempt 1/10)...'', ''Checking server status...'']"
proof -
  define s2 where "s2 = (setLogs_append ''Manual connection check initiated...'' s)\<lparr>retryCount := 0\<rparr>"
  have h: "handleCheckConnection s = fetchStatus (connectWebSocket s2)"
    by (simp add: handleCheckConnection_def Let_def s2_def)
  have f: "retryCount s2 = 0" "timeouts s2 = timeouts s" "retryTimeoutRef s2 = retryTimeoutRef s"
    "wsockets s2 = wsockets s" "ws_current s2 = ws_current s" "fetches s2 = fetches s"
    "logs s2 = logs s @ [''Manual connection check initiated...'']"
    "isConnected s2 = isConnected s" "statusMessage s2 = statusMessage s" "blocked s2 = blocked s"
    "last_timer s2 = last_timer s"
    by (simp_all add: s2_def setLogs_append_def)
  have lt: "retryCount s2 < MAX_RETRIES" by (simp add: f MAX_RETRIES_def)
  have ac: "after_close s2 = after_close s" by (rule after_close_cong) (simp_all add: f)
  have wr: "without_retry (retryTimeoutRef s) (timeouts s) = []"
    using t by (rule without_retry_tracked)
  have "tracked (step ManualReconnect s)" using t by (rule step_tracked)
  then show "tracked (handleCheckConnection s)" by simp
  have "single_channel (step ManualReconnect s)" using c by (rule step_single_channel)
  then show "single_channel (handleCheckConnection s)" by simp
  show "blocked (handleCheckConnection s) = blocked s"
    using connectWebSocket_attempt(11) [OF lt] connectWebSocket_blocked(6) [OF lt]
    by (cases "blocked s") (simp_all add: h fetchStatus_def Let_def setLogs_append_def f)
  show "fetches (handleCheckConnection s) = Suc (fetches s)"
    using connectWebSocket_attempt(7) [OF lt] connectWebSocket_blocked_more(3) [OF lt]
    by (cases "blocked s") (simp_all add: h fetchStatus_def Let_def setLogs_append_def f)
  show "\<exists>e. logs (handleCheckConnection s) =
        logs s @ [''Manual connection check initiated...'', e, ''Checking server status...'']"
    using connectWebSocket_attempt(8) [OF lt] connectWebSocket_blocked_more(4) [OF lt]
    by (cases "blocked s") (auto simp: h fetchStatus_def Let_def setLogs_append_def f)
  show "isConnected (handleCheckConnection s) = isConnected s"
    using connectWebSocket_attempt(9) [OF lt] connectWebSocket_blocked_more(1) [OF lt]
    by (cases "blocked s") (simp_all add: h fetchStatus_def Let_def setLogs_append_def f)
  show "blocked s \<Longrightarrow>
       retryCount (handleCheckConnection s) = 1 \<and>
       timeouts (handleCheckConnection s) = [(Suc (last_timer s), 1000)] \<and>
       wsockets (handleCheckConnection s) = after_close s \<and>
       ws_current (handleCheckConnection s) = ws_current s \<and>
       statusMessage (handleCheckConnection s) = ''Failed to create WebSocket connection''"
    using connectWebSocket_blocked [OF lt] connectWebSocket_blocked_more [OF lt]
      connectWebSocket_channels(2) [OF lt]
    by (simp add: h fetchStatus_def Let_def setLogs_append_def f ac wr retryDelay_of_def)
  show "\<not> blocked s \<Longrightarrow>
       retryCount (handleCheckConnection s) = 0 \<and>
       timeouts (handleCheckConnection s) = [] \<and>
       wsockets (handleCheckConnection s) = after_close s @ [0] \<and>
       ws_current (handleCheckConnection s) = Some (length (wsockets s)) \<and>
       statusMessage (handleCheckConnection s) = statusMessage s \<and>
       logs (handleCheckConnection s) =
         logs s @ [''Manual connection check initiated...'',
                   ''Connecting to WebSocket (attempt 1/10)...'', ''Checking server status...'']"
    using handleCheckConnection_attempt [of s] connectWebSocket_channels(3) [OF lt]
    by (simp add: h fetchStatus_def Let_def setLogs_append_def f ac wr after_close_length)
qed

lemma started_tracked: "tracked (run es (mount (initial_session\<lparr>blocked := b\<rparr>)))"
proof -
  have "tracked (initial_session\<lparr>blocked := b\<rparr>)"
    by (simp add: tracked_def initial_session_def)
  then show ?thesis by (simp add: mount_tracked run_tracked)
qed

lemma connection_state_again:
  assumes t: "tracked s" and c: "single_channel s"
  shows "connection_state (handleCheckConnection (handleCheckConnection s)) =
           connection_state (handleCheckConnection s)"
proof -
  define s1 where "s1 = handleCheckConnection s"
  note o = manual_reconnect_once [OF t c, folded s1_def]
  note p = manual_reconnect_once [OF o(1) o(2)]
  show ?thesis
  proof (cases "blocked s")
    case True
    with o(3) have b1: "blocked s1" by simp
    note o7 = o(7) [OF True]
    note p7 = p(7) [OF b1]
    have ac: "after_close s1 = after_close s"
      using o7 by (intro after_close_again) simp_all
    have e: "wsockets (handleCheckConnection s1) = wsockets s1"
      "ws_current (handleCheckConnection s1) = ws_current s1"
      "retryCount (handleCheckConnection s1) = retryCount s1"
      "map snd (timeouts (handleCheckConnection s1)) = map snd (timeouts s1)"
      "statusMessage (handleCheckConnection s1) = statusMessage s1"
      "isConnected (handleCheckConnection s1) = isConnected s1"
      using o7 p7 p(6) by (simp_all add: ac)
    show ?thesis
      unfolding s1_def [symmetric] connection_state_def by (simp only: e)
  next
    case False
    with o(3) have b1: "\<not> blocked s1" by simp
    note o8 = o(8) [OF False]
    note p8 = p(8) [OF b1]
    have a: "after_close s1 = after_close s @ [2]"
      using o8 by (intro after_close_new) simp_all
    from o8 have l: "length (wsockets s1) = Suc (length (wsockets s))"
      by (simp add: after_close_length)
    have e: "retryCount (handleCheckConnection s1) = retryCount s1"
      "map snd (timeouts (handleCheckConnection s1)) = map snd (timeouts s1)"
      "statusMessage (handleCheckConnection s1) = statusMessage s1"
      "isConnected (handleCheckConnection s1) = isConnected s1"
      using o8 p8 p(6) by simp_all
    have c1: "ws_current s1 = Some (length (wsockets s))" "length (wsockets s) < length (wsockets s1)"
      "wsockets s1 ! length (wsockets s) = 0"
      using o8 l by (simp_all add: nth_append after_close_length)
    have c2: "ws_current (handleCheckConnection s1) = Some (Suc (length (wsockets s)))"
      "Suc (length (wsockets s)) < length (wsockets (handleCheckConnection s1))"
      "wsockets (handleCheckConnection s1) ! Suc (length (wsockets s)) = 0"
      using p8 l a by (simp_all add: nth_append after_close_length)
    show ?thesis
      unfolding s1_def [symmetric] connection_state_def by (simp add: e c1 c2)
  qed
qed

text \<open>
  Claim C9, amended. In every state that a session reaches from its mount, a manual
  reconnect starts one status request and appends three log entries; it closes the
  current channel if that was connecting or open and leaves every other channel as it
  was, so that no earlier channel is connecting or open afterwards. Where the
  constructor does not throw, the counter is 0 afterwards, no timeout is pending
  and a new channel is current and connecting. Where it throws, the attempt fails at
  once: the counter is 1, the only pending timeout is a retry after 1000 ms, and no
  channel has been added. A second request gives the same connection state (counter,
  delays of the pending timeouts, state of the current channel, connected flag and
  status line), not the same session: the log has grown by six entries, two status
  requests have been started, and where the constructor does not throw the channel
  that the first request opened is closing and a fresh one is connecting.
\<close>

theorem manual_reconnect:
  assumes "s = run es (mount (initial_session\<lparr>blocked := b\<rparr>))"
  shows "fetches (handleCheckConnection s) = Suc (fetches s) \<and>
         (\<exists>e. logs (handleCheckConnection s) =
            logs s @ [''Manual connection check initiated...'', e, ''Checking server status...'']) \<and>
         (\<forall>j<length (wsockets s).
            wsockets (handleCheckConnection s) ! j =
              (if ws_current s = Some j \<and> wsockets s ! j < 2 then 2 else wsockets s ! j)) \<and>
         (\<forall>j<length (wsockets s). 2 \<le> wsockets (handleCheckConnection s) ! j) \<and>
         (if blocked s
          then retryCount (handleCheckConnection s) = 1 \<and>
               timeouts (handleCheckConnection s) = [(Suc (last_timer s), 1000)] \<and>
               length (wsockets (handleCheckConnection s)) = length (wsockets s)
          else retryCount (handleCheckConnection s) = 0 \<and>
               timeouts (handleCheckConnection s) = [] \<and>
               length (wsockets (handleCheckConnection s)) = Suc (length (wsockets s)) \<and>
               wsockets (handleCheckConnection s) ! length (wsockets s) = 0 \<and>
               ws_current (handleCheckConnection s) = Some (length (wsockets s)) \<and>
               logs (handleCheckConnection s) =
                 logs s @ [''Manual connection check initiated...'',
                           ''Connecting to WebSocket (attempt 1/10)...'',
                           ''Checking server status...''] \<and>
               wsockets (handleCheckConnection (handleCheckConnection s)) ! length (wsockets s) = 2 \<and>
               wsockets (handleCheckConnection (handleCheckConnection s)) ! Suc (length (wsockets s)) = 0 \<and>
               ws_current (handleCheckConnection (handleCheckConnection s)) =
                 Some (Suc (length (wsockets s)))) \<and>
         connection_state (handleCheckConnection (handleCheckConnection s)) =
           connection_state (handleCheckConnection s) \<and>
         length (logs (handleCheckConnection (handleCheckConnection s))) = length (logs s) + 6 \<and>
         fetches (handleCheckConnection (handleCheckConnection s)) = fetches s + 2"
proof -
  from assms have t: "tracked s" and c: "single_channel s"
    by (simp_all add: started_tracked started_single_channel)
  define s1 where "s1 = handleCheckConnection s"
  note o = manual_reconnect_once [OF t c, folded s1_def]
  note p = manual_reconnect_once [OF o(1) o(2)]
  from c have A: "\<forall>i<length (wsockets s). ws_current s \<noteq> Some i \<longrightarrow> 2 \<le> wsockets s ! i"
    by (simp add: single_channel_def)
  note n = after_close_none [OF A]
  have w: "wsockets s1 = after_close s \<or> wsockets s1 = after_close s @ [0]"
    using o(7) o(8) by (cases "blocked s") simp_all
  have 3: "\<forall>j<length (wsockets s).
            wsockets s1 ! j =
              (if ws_current s = Some j \<and> wsockets s ! j < 2 then 2 else wsockets s ! j)"
    using w after_close_nth [of _ s] by (auto simp: nth_append after_close_length)
  have 4: "\<forall>j<length (wsockets s). 2 \<le> wsockets s1 ! j"
  proof (intro allI impI)
    fix j
    assume j: "j < length (wsockets s)"
    then have "after_close s ! j \<in> set (after_close s)" by (simp add: after_close_length)
    with n have "2 \<le> after_close s ! j" by blast
    with w j show "2 \<le> wsockets s1 ! j" by (auto simp: nth_append after_close_length)
  qed
  have 5: "if blocked s
          then retryCount s1 = 1 \<and>
               timeouts s1 = [(Suc (last_timer s), 1000)] \<and>
               length (wsockets s1) = length (wsockets s)
          else retryCount s1 = 0 \<and>
               timeouts s1 = [] \<and>
               length (wsockets s1) = Suc (length (wsockets s)) \<and>
               wsockets s1 ! length (wsockets s) = 0 \<and>
               ws_current s1 = Some (length (wsockets s)) \<and>
               logs s1 =
                 logs s @ [''Manual connection check initiated...'',
                           ''Connecting to WebSocket (attempt 1/10)...'',
                           ''Checking server status...''] \<and>
               wsockets (handleCheckConnection s1) ! length (wsockets s) = 2 \<and>
               wsockets (handleCheckConnection s1) ! Suc (length (wsockets s)) = 0 \<and>
               ws_current (handleCheckConnection s1) = Some (Suc (length (wsockets s)))"
  proof (cases "blocked s")
    case True
    with o(7) show ?thesis by (simp add: after_close_length)
  next
    case False
    with o(3) have b1: "\<not> blocked s1" by simp
    note o8 = o(8) [OF False]
    note p8 = p(8) [OF b1]
    have a: "after_close s1 = after_close s @ [2]"
      using o8 by (intro after_close_new) simp_all
    from o8 have l: "length (wsockets s1) = Suc (length (wsockets s))"
      by (simp add: after_close_length)
    from False o8 p8 a l show ?thesis
      by (simp add: nth_append after_close_length)
  qed
  from o(5) p(5) have 7: "length (logs (handleCheckConnection s1)) = length (logs s) + 6"
    by auto
  from o(4) p(4) have 8: "fetches (handleCheckConnection s1) = fetches s + 2" by simp
  from o(4) o(5) 3 4 5 connection_state_again [OF t c] 7 8 show ?thesis
    unfolding s1_def by blast
qed

lemma mounted_fields:
  "\<not> blocked (mount initial_session)"
  "blocked (mount blocked_session)" "last_timer (mount blocked_session) = 1"
  by (simp_all add: mount_def blocked_session_def initial_session_def connectWebSocket_def
      Let_def MAX_RETRIES_def setLogs_append_def console_write_def schedule_retry_def)

lemma connected_session_fields:
  "wsockets connected_session = [1]" "ws_current connected_session = Some 0"
  "\<not> blocked connected_session"
  by (simp_all add: connected_session_def mount_def initial_session_def connectWebSocket_def
      Let_def MAX_RETRIES_def setLogs_append_def onopen_def console_write_def fetchStatus_def)

text \<open>
  Claim C9 as stated fails. A second manual reconnect does not give the state that
  the first one gave: the log has three more entries and one more WebSocket has been
  constructed. And where the constructor throws, the counter is not 0 after the
  request and a timeout is pending: the attempt has failed at once and scheduled a
  retry.
\<close>

theorem manual_reconnect_counterexample:
  "logs (handleCheckConnection (handleCheckConnection (mount initial_session)))
     \<noteq> logs (handleCheckConnection (mount initial_session)) \<and>
   length (wsockets (handleCheckConnection (handleCheckConnection (mount initial_session))))
     \<noteq> length (wsockets (handleCheckConnection (mount initial_session))) \<and>
   handleCheckConnection (handleCheckConnection (mount initial_session))
     \<noteq> handleCheckConnection (mount initial_session) \<and>
   retryCount (handleCheckConnection (mount blocked_session)) = 1 \<and>
   timeouts (handleCheckConnection (mount blocked_session)) = [(2, 1000)]"
proof -
  note n = mounted_fields(1)
  note f1 = handleCheckConnection_attempt [OF n]
  from f1(11) n have n1: "\<not> blocked (handleCheckConnection (mount initial_session))" by simp
  note f2 = handleCheckConnection_attempt [OF n1]
  have l: "logs (handleCheckConnection (handleCheckConnection (mount initial_session)))
     \<noteq> logs (handleCheckConnection (mount initial_session))"
    unfolding f2(8) by simp
  have w: "length (wsockets (handleCheckConnection (handleCheckConnection (mount initial_session))))
     \<noteq> length (wsockets (handleCheckConnection (mount initial_session)))"
    unfolding f2(4) by simp
  from l have d: "handleCheckConnection (handleCheckConnection (mount initial_session))
     \<noteq> handleCheckConnection (mount initial_session)" by auto
  have "mount blocked_session = run [] (mount (initial_session\<lparr>blocked := True\<rparr>))"
    by (simp add: blocked_session_def)
  then have t: "tracked (mount blocked_session)" and c: "single_channel (mount blocked_session)"
    by (simp_all only: started_tracked started_single_channel)
  from manual_reconnect_once(7) [OF t c mounted_fields(2)] mounted_fields(3)
  have b: "retryCount (handleCheckConnection (mount blocked_session)) = 1"
    "timeouts (handleCheckConnection (mount blocked_session)) = [(2, 1000)]"
    by simp_all
  from l w d b show ?thesis by blast
qed

theorem manual_reconnect_witness:
  "retrying_session =
     run [TimeoutFired 1, ConstructorPolicy False] (mount (initial_session\<lparr>blocked := True\<rparr>)) \<and>
   timeouts retrying_session = [(2, 2000)] \<and> retryCount retrying_session = 2 \<and>
   retryCount (handleCheckConnection retrying_session) = 0 \<and>
   timeouts (handleCheckConnection retrying_session) = [] \<and>
   ws_current (handleCheckConnection retrying_session) = Some 0 \<and>
   wsockets (handleCheckConnection retrying_session) ! 0 = 0 \<and>
   fetches (handleCheckConnection retrying_session) = 1 \<and>
   wsockets (handleCheckConnection (handleCheckConnection retrying_session)) ! 0 = 2 \<and>
   wsockets (handleCheckConnection (handleCheckConnection retrying_session)) ! 1 = 0 \<and>
   connection_state (handleCheckConnection (handleCheckConnection retrying_session)) =
     connection_state (handleCheckConnection retrying_session) \<and>
   connected_session = run [SocketOpened 0] (mount (initial_session\<lparr>blocked := False\<rparr>)) \<and>
   wsockets connected_session = [1] \<and>
   wsockets (handleCheckConnection connected_session) ! 0 = 2 \<and>
   wsockets (handleCheckConnection connected_session) ! 1 = 0"
proof -
  note f = retrying_session_fields
  note g = connected_session_fields
  have o: "retrying_session =
     run [TimeoutFired 1, ConstructorPolicy False] (mount (initial_session\<lparr>blocked := True\<rparr>))"
    by (simp only: retrying_session_def blocked_session_def)
  have "initial_session\<lparr>blocked := False\<rparr> = initial_session"
    by (simp add: initial_session_def)
  then have o': "connected_session = run [SocketOpened 0] (mount (initial_session\<lparr>blocked := False\<rparr>))"
    by (simp only: connected_session_def)
  from manual_reconnect [OF o] f
  have 1: "retryCount (handleCheckConnection retrying_session) = 0 \<and>
   timeouts (handleCheckConnection retrying_session) = [] \<and>
   ws_current (handleCheckConnection retrying_session) = Some 0 \<and>
   wsockets (handleCheckConnection retrying_session) ! 0 = 0 \<and>
   fetches (handleCheckConnection retrying_session) = 1 \<and>
   wsockets (handleCheckConnection (handleCheckConnection retrying_session)) ! 0 = 2 \<and>
   wsockets (handleCheckConnection (handleCheckConnection retrying_session)) ! 1 = 0 \<and>
   connection_state (handleCheckConnection (handleCheckConnection retrying_session)) =
     connection_state (handleCheckConnection retrying_session)"
    by simp
  from manual_reconnect [OF o'] g
  have 2: "wsockets (handleCheckConnection connected_session) ! 0 = 2 \<and>
   wsockets (handleCheckConnection connected_session) ! 1 = 0"
    by simp
  have 3: "timeouts retrying_session = [(2, 2000)] \<and> retryCount retrying_session = 2 \<and>
     wsockets connected_session = [1]"
    by (simp add: f g)
  from o o' 1 2 3 show ?thesis by blast
qed

end
